theory Spec2Isabelle
  imports Complex_Main "HOL-Library.Sublist" "HOL-Library.AList"
begin

section \<open>Python values, exceptions and strings\<close>

text \<open>
  The repository is Python. Its strings are modelled as \<open>string\<close>, read as sequences of
  code points below 256; exceptions are values of \<open>error\<close>, and a function that may raise
  returns \<open>error + 'a\<close> with \<open>Inl\<close> for the exception. The subclass relations of the
  exceptions that the \<open>except\<close> clauses of the repository rely on are \<open>is_ValueError\<close> and
  \<open>is_OSError\<close>.
\<close>

datatype error =
    FileNotFoundError | OSError | UnicodeDecodeError | JSONDecodeError | ValueError
  | RequestError | AttributeError | TypeError | YAMLError | InvalidURL

definition is_ValueError :: "error \<Rightarrow> bool" where
  "is_ValueError e = (e = ValueError \<or> e = JSONDecodeError \<or> e = UnicodeDecodeError)"

definition is_OSError :: "error \<Rightarrow> bool" where
  "is_OSError e = (e = OSError \<or> e = FileNotFoundError)"

text \<open>
  Values that \<open>json.loads\<close>, \<open>response.json()\<close> and the YAML front matter loader produce.
  Python does not check the annotations of a dataclass, so a field read from such a value
  holds whatever the document gave. A \<open>PyDict\<close> lists the items of a dictionary in
  insertion order; the keys of a dictionary are distinct.
\<close>

datatype pyval =
    PyNone | PyBool bool | PyInt int | PyFloat real | PyStr string
  | PyList "pyval list" | PyDict "(string \<times> pyval) list"

fun truthy :: "pyval \<Rightarrow> bool" where
  "truthy PyNone = False"
| "truthy (PyBool b) = b"
| "truthy (PyInt i) = (i \<noteq> 0)"
| "truthy (PyFloat r) = (r \<noteq> 0)"
| "truthy (PyStr s) = (s \<noteq> [])"
| "truthy (PyList xs) = (xs \<noteq> [])"
| "truthy (PyDict kvs) = (kvs \<noteq> [])"

text \<open>\<open>str.lower\<close> on one code point below 256: the capital letters \<open>A\<close> to \<open>Z\<close> and
  \<open>0xC0\<close> to \<open>0xDE\<close> (without \<open>0xD7\<close>) move up by 32, which sets bit 5.\<close>

fun lower_char :: "char \<Rightarrow> char" where
  "lower_char (Char b0 b1 b2 b3 b4 b5 b6 b7) =
     (let n = (of_char (Char b0 b1 b2 b3 b4 b5 b6 b7) :: nat)
      in if (65 \<le> n \<and> n \<le> 90) \<or> (192 \<le> n \<and> n \<le> 222 \<and> n \<noteq> 215)
         then Char b0 b1 b2 b3 b4 True b6 b7 else Char b0 b1 b2 b3 b4 b5 b6 b7)"

definition lower :: "string \<Rightarrow> string" where
  "lower s = map lower_char s"

definition startswith :: "string \<Rightarrow> string \<Rightarrow> bool" where
  "startswith s p = prefix p s"

definition endswith :: "string \<Rightarrow> string \<Rightarrow> bool" where
  "endswith s p = suffix p s"

text \<open>\<open>sub in s\<close> for strings.\<close>

fun contains :: "string \<Rightarrow> string \<Rightarrow> bool" where
  "contains [] sub = (sub = [])"
| "contains (c # cs) sub = (prefix sub (c # cs) \<or> contains cs sub)"

text \<open>\<open>s.find(sub)\<close>: the index of the first occurrence, \<open>None\<close> for Python's \<open>-1\<close>.\<close>

fun find_str :: "string \<Rightarrow> string \<Rightarrow> nat option" where
  "find_str [] sub = (if sub = [] then Some 0 else None)"
| "find_str (c # cs) sub =
     (if prefix sub (c # cs) then Some 0 else map_option Suc (find_str cs sub))"

text \<open>\<open>s.rstrip(c)\<close> for a single character.\<close>

definition rstrip :: "char \<Rightarrow> string \<Rightarrow> string" where
  "rstrip c s = rev (dropWhile (\<lambda>x. x = c) (rev s))"

definition strip :: "char \<Rightarrow> string \<Rightarrow> string" where
  "strip c s = rstrip c (dropWhile (\<lambda>x. x = c) s)"

text \<open>\<open>s.replace(old, new)\<close> for a non-empty \<open>old\<close>: occurrences are replaced from the left
  and do not overlap.\<close>

function replace :: "string \<Rightarrow> string \<Rightarrow> string \<Rightarrow> string" where
  "replace [] old new = []"
| "replace (c # cs) old new =
     (if old \<noteq> [] \<and> prefix old (c # cs) then new @ replace (drop (length old) (c # cs)) old new
      else c # replace cs old new)"
  by pat_completeness auto
termination
  by (relation "measure (\<lambda>(s, old, new). length s)") auto

text \<open>\<open>s.split(c, 1)\<close> as the pair before and after the first \<open>c\<close>; when \<open>c\<close> does not occur
  the second component is empty, as the callers below leave it.\<close>

definition split_once :: "char \<Rightarrow> string \<Rightarrow> string \<times> string" where
  "split_once c s = (takeWhile (\<lambda>x. x \<noteq> c) s, drop 1 (dropWhile (\<lambda>x. x \<noteq> c) s))"

section \<open>urllib.parse\<close>

text \<open>
  \<open>urlparse\<close> is the standard library's, modelled on CPython 3.11 for \<open>str\<close> input. The
  validation of a bracketed host (\<open>_check_bracketed_host\<close>, which goes through the
  \<open>ipaddress\<close> module and differs between releases) is a parameter, the field
  \<open>check_bracketed_host\<close> of the environment. \<open>_checknetloc\<close> never raises on code points
  below 256 and is left out.
\<close>

record ParseResult =
  scheme :: string
  netloc :: string
  path :: string
  params :: string
  query :: string
  fragment :: string

record response =
  status_code :: int
  body_text :: string
  body_json :: "error + pyval"
  front_matter :: "error + (string \<times> pyval) list"

text \<open>
  The collaborators outside the repository: the bracketed-host check of \<open>urllib\<close>, the
  outcome of an HTTP GET (an exception or a response, with what \<open>response.json()\<close> and
  \<open>frontmatter.loads(response.text)\<close> make of its body), and \<open>str()\<close> of a value that is
  not a string, as an f-string applies it.
\<close>

record env =
  check_bracketed_host :: "string \<Rightarrow> bool"
  http_get :: "string \<Rightarrow> error + response"
  str_other :: "pyval \<Rightarrow> string"

definition lstrip_c0 :: "string \<Rightarrow> string" where
  "lstrip_c0 s = dropWhile (\<lambda>c. (of_char c :: nat) \<le> 32) s"

definition remove_unsafe :: "string \<Rightarrow> string" where
  "remove_unsafe s = filter (\<lambda>c. c \<noteq> CHR 0x09 \<and> c \<noteq> CHR 0x0D \<and> c \<noteq> CHR 0x0A) s"

definition scheme_chars :: string where
  "scheme_chars = ''abcdefghijklmnopqrstuvwxyzABCDEFGHIJKLMNOPQRSTUVWXYZ0123456789+-.''"

definition ascii_alpha :: "char \<Rightarrow> bool" where
  "ascii_alpha c =
     (let n = (of_char c :: nat) in (65 \<le> n \<and> n \<le> 90) \<or> (97 \<le> n \<and> n \<le> 122))"

definition split_scheme :: "string \<Rightarrow> string \<times> string" where
  "split_scheme url =
     (let pre = takeWhile (\<lambda>c. c \<noteq> CHR '':'') url
      in if CHR '':'' \<in> set url \<and> pre \<noteq> [] \<and> ascii_alpha (hd url)
            \<and> list_all (\<lambda>c. c \<in> set scheme_chars) pre
         then (lower pre, drop (Suc (length pre)) url)
         else ([], url))"

definition is_delim :: "char \<Rightarrow> bool" where
  "is_delim c = (c = CHR ''/'' \<or> c = CHR ''?'' \<or> c = CHR ''#'')"

definition splitnetloc :: "string \<Rightarrow> string \<times> string" where
  "splitnetloc url =
     (takeWhile (\<lambda>c. \<not> is_delim c) (drop 2 url), dropWhile (\<lambda>c. \<not> is_delim c) (drop 2 url))"

definition bracketed_host :: "string \<Rightarrow> string" where
  "bracketed_host nl =
     takeWhile (\<lambda>c. c \<noteq> CHR '']'') (drop 1 (dropWhile (\<lambda>c. c \<noteq> CHR ''['') nl))"

definition netloc_ok :: "env \<Rightarrow> string \<Rightarrow> bool" where
  "netloc_ok e nl =
     (if CHR ''['' \<in> set nl \<and> CHR '']'' \<in> set nl then check_bracketed_host e (bracketed_host nl)
      else CHR ''['' \<notin> set nl \<and> CHR '']'' \<notin> set nl)"

definition split_rest :: "string \<Rightarrow> string \<Rightarrow> string \<Rightarrow> ParseResult" where
  "split_rest sch nl url =
     (let (u1, frag) = split_once CHR ''#'' url;
          (u2, qry) = split_once CHR ''?'' u1
      in \<lparr>scheme = sch, netloc = nl, path = u2, params = [], query = qry, fragment = frag\<rparr>)"

definition urlsplit :: "env \<Rightarrow> string \<Rightarrow> error + ParseResult" where
  "urlsplit e url0 =
     (let (sch, url) = split_scheme (remove_unsafe (lstrip_c0 url0))
      in if take 2 url = ''//''
         then (let (nl, rest) = splitnetloc url
               in if netloc_ok e nl then Inr (split_rest sch nl rest) else Inl ValueError)
         else Inr (split_rest sch [] url))"

definition uses_params :: "string list" where
  "uses_params = ['''', ''ftp'', ''hdl'', ''prospero'', ''http'', ''imap'', ''https'', ''shttp'',
     ''rtsp'', ''rtsps'', ''rtspu'', ''sip'', ''sips'', ''mms'', ''sftp'', ''tel'']"

definition splitparams :: "string \<Rightarrow> string \<times> string" where
  "splitparams url =
     (if CHR ''/'' \<in> set url
      then (let lastseg = rev (takeWhile (\<lambda>c. c \<noteq> CHR ''/'') (rev url));
                front = take (length url - length lastseg) url
            in if CHR '';'' \<in> set lastseg
               then (front @ fst (split_once CHR '';'' lastseg), snd (split_once CHR '';'' lastseg))
               else (url, []))
      else split_once CHR '';'' url)"

definition urlparse :: "env \<Rightarrow> string \<Rightarrow> error + ParseResult" where
  "urlparse e url =
     (case urlsplit e url of
        Inl err \<Rightarrow> Inl err
      | Inr r \<Rightarrow>
          if scheme r \<in> set uses_params \<and> CHR '';'' \<in> set (path r)
          then Inr (r\<lparr>path := fst (splitparams (path r)), params := snd (splitparams (path r))\<rparr>)
          else Inr r)"

definition hostinfo_host :: "string \<Rightarrow> string" where
  "hostinfo_host nl =
     (let hostinfo = rev (takeWhile (\<lambda>c. c \<noteq> CHR ''@'') (rev nl))
      in if CHR ''['' \<in> set hostinfo
         then takeWhile (\<lambda>c. c \<noteq> CHR '']'') (drop 1 (dropWhile (\<lambda>c. c \<noteq> CHR ''['') hostinfo))
         else takeWhile (\<lambda>c. c \<noteq> CHR '':'') hostinfo)"

definition hostname :: "ParseResult \<Rightarrow> string option" where
  "hostname r =
     (let h = hostinfo_host (netloc r)
      in if h = [] then None
         else Some (lower (takeWhile (\<lambda>c. c \<noteq> CHR ''%'') h) @ dropWhile (\<lambda>c. c \<noteq> CHR ''%'') h))"

section \<open>Providers: matching a URL\<close>

record ProviderMatch =
  matches :: bool
  source_identifier :: "string option"

definition no_match :: ProviderMatch where
  "no_match = \<lparr>matches = False, source_identifier = None\<rparr>"

definition EXCLUDED_HOSTS :: "string list" where
  "EXCLUDED_HOSTS = [''github.com'', ''gitlab.com'', ''huggingface.co'', ''raw.githubusercontent.com'']"

definition is_http :: "string \<Rightarrow> bool" where
  "is_http url = (startswith url ''http://'' \<or> startswith url ''https://'')"

text \<open>\<open>parsed.hostname or ''\<close>.\<close>

definition hostname_or_empty :: "ParseResult \<Rightarrow> string" where
  "hostname_or_empty r = (case hostname r of None \<Rightarrow> [] | Some h \<Rightarrow> h)"

subsection \<open>mintlify.py\<close>

definition MintlifyProvider_get_source_identifier :: "env \<Rightarrow> string \<Rightarrow> string" where
  "MintlifyProvider_get_source_identifier e url =
     (case urlparse e url of
        Inl err \<Rightarrow> ''mintlify/com''
      | Inr parsed \<Rightarrow> ''mintlify/'' @ (case hostname parsed of None \<Rightarrow> ''com'' | Some h \<Rightarrow> h))"

definition MintlifyProvider_match :: "env \<Rightarrow> string \<Rightarrow> ProviderMatch" where
  "MintlifyProvider_match e url =
     (if \<not> startswith url ''http://'' \<and> \<not> startswith url ''https://'' then no_match
      else if \<not> endswith (lower url) ''/skill.md'' then no_match
      else (case urlparse e url of
              Inl err \<Rightarrow> no_match
            | Inr parsed \<Rightarrow>
                if hostname_or_empty parsed \<in> set EXCLUDED_HOSTS then no_match
                else \<lparr>matches = True,
                      source_identifier = Some (MintlifyProvider_get_source_identifier e url)\<rparr>))"

definition MintlifyProvider_to_raw_url :: "string \<Rightarrow> string" where
  "MintlifyProvider_to_raw_url url = url"

subsection \<open>huggingface.py\<close>

text \<open>
  \<open>_parse_url\<close> is \<open>re.search(r'/spaces/([^/]+)/([^/]+)', url)\<close>. \<open>parse_url_here\<close> is the
  pattern tried at the start of a string: both groups are greedy runs of characters other
  than \<open>/\<close>, and a shorter first group could not be followed by the \<open>/\<close> the pattern asks
  for. \<open>parse_url\<close> tries every start position from the left, as \<open>search\<close> does.
\<close>

definition parse_url_here :: "string \<Rightarrow> (string \<times> string) option" where
  "parse_url_here s =
     (if prefix ''/spaces/'' s
      then (let r = drop 8 s;
                owner = takeWhile (\<lambda>c. c \<noteq> CHR ''/'') r;
                r2 = dropWhile (\<lambda>c. c \<noteq> CHR ''/'') r;
                repo = takeWhile (\<lambda>c. c \<noteq> CHR ''/'') (drop 1 r2)
            in if owner \<noteq> [] \<and> r2 \<noteq> [] \<and> repo \<noteq> [] then Some (owner, repo) else None)
      else None)"

fun parse_url :: "string \<Rightarrow> (string \<times> string) option" where
  "parse_url [] = None"
| "parse_url (c # cs) =
     (case parse_url_here (c # cs) of Some r \<Rightarrow> Some r | None \<Rightarrow> parse_url cs)"

definition HuggingFaceProvider_get_source_identifier :: "string \<Rightarrow> string" where
  "HuggingFaceProvider_get_source_identifier url =
     (case parse_url url of
        Some (owner, repo) \<Rightarrow> ''huggingface/'' @ owner @ ''/'' @ repo
      | None \<Rightarrow> ''huggingface'')"

definition HuggingFaceProvider_match :: "env \<Rightarrow> string \<Rightarrow> ProviderMatch" where
  "HuggingFaceProvider_match e url =
     (if \<not> startswith url ''http://'' \<and> \<not> startswith url ''https://'' then no_match
      else (case urlparse e url of
              Inl err \<Rightarrow> no_match
            | Inr parsed \<Rightarrow>
                if hostname_or_empty parsed \<noteq> ''huggingface.co'' then no_match
                else if \<not> contains url ''/spaces/'' then no_match
                else if \<not> endswith (lower url) ''/skill.md'' then no_match
                else \<lparr>matches = True,
                      source_identifier = Some (HuggingFaceProvider_get_source_identifier url)\<rparr>))"

definition HuggingFaceProvider_to_raw_url :: "string \<Rightarrow> string" where
  "HuggingFaceProvider_to_raw_url url = replace url ''/blob/'' ''/raw/''"

subsection \<open>wellknown.py\<close>

definition WellKnownProvider_get_source_identifier :: "env \<Rightarrow> string \<Rightarrow> string" where
  "WellKnownProvider_get_source_identifier e url =
     (case urlparse e url of
        Inl err \<Rightarrow> url
      | Inr parsed \<Rightarrow> (case hostname parsed of None \<Rightarrow> url | Some h \<Rightarrow> h))"

definition WellKnownProvider_match :: "env \<Rightarrow> string \<Rightarrow> ProviderMatch" where
  "WellKnownProvider_match e url =
     (if \<not> startswith url ''http://'' \<and> \<not> startswith url ''https://'' then no_match
      else (case urlparse e url of
              Inl err \<Rightarrow> no_match
            | Inr parsed \<Rightarrow>
                if hostname_or_empty parsed \<in> set EXCLUDED_HOSTS then no_match
                else if endswith (lower url) ''/skill.md'' then no_match
                else if endswith url ''.git'' then no_match
                else \<lparr>matches = True,
                      source_identifier = Some (WellKnownProvider_get_source_identifier e url)\<rparr>))"

definition WellKnownProvider_to_raw_url :: "string \<Rightarrow> string" where
  "WellKnownProvider_to_raw_url url = url"

definition well_known_skills :: string where
  "well_known_skills = ''/.well-known/skills''"

text \<open>
  \<open>_get_well_known_base\<close>. \<open>urlparse\<close> is called outside any \<open>try\<close>, so its \<open>ValueError\<close>
  leaves the function. The source tests \<open>'/.well-known/skills' in path\<close> and then calls
  \<open>path.find\<close>; \<open>find\<close> returns an index exactly when the test holds (lemma
  \<open>find_Some_iff_contains\<close> below), so the model branches on \<open>find\<close>.
\<close>

definition get_well_known_base :: "env \<Rightarrow> string \<Rightarrow> error + string" where
  "get_well_known_base e url =
     (case urlparse e url of
        Inl err \<Rightarrow> Inl err
      | Inr parsed \<Rightarrow>
          (let p = rstrip CHR ''/'' (path parsed)
           in case find_str p well_known_skills of
                Some idx \<Rightarrow>
                  Inr (scheme parsed @ ''://'' @ netloc parsed
                       @ take (idx + length well_known_skills) p)
              | None \<Rightarrow>
                  Inr (scheme parsed @ ''://'' @ netloc parsed @ p @ well_known_skills)))"

section \<open>skill_lock.py\<close>

definition CURRENT_VERSION :: int where
  "CURRENT_VERSION = 3"

record SkillLockEntry =
  source :: pyval
  source_type :: pyval
  source_url :: pyval
  skill_folder_hash :: pyval
  installed_at :: pyval
  updated_at :: pyval
  skill_path :: pyval

record DismissedPrompts =
  find_skills_prompt :: pyval

record SkillLockFile =
  version :: pyval
  skills :: "(string \<times> SkillLockEntry) list"
  dismissed :: DismissedPrompts
  last_selected_agents :: pyval

text \<open>\<open>d.get(k, default)\<close> on a dictionary.\<close>

definition dict_get :: "(string \<times> pyval) list \<Rightarrow> string \<Rightarrow> pyval \<Rightarrow> pyval" where
  "dict_get kvs k dflt = (case map_of kvs k of None \<Rightarrow> dflt | Some v \<Rightarrow> v)"

definition has_key :: "(string \<times> 'v) list \<Rightarrow> string \<Rightarrow> bool" where
  "has_key kvs k = (k \<in> set (map fst kvs))"

text \<open>\<open>_lock_entry_to_dict\<close>: the items of the dictionary it builds, \<open>skillPath\<close> only when
  truthy.\<close>

definition lock_entry_fields :: "SkillLockEntry \<Rightarrow> (string \<times> pyval) list" where
  "lock_entry_fields entry =
     [(''source'', source entry),
      (''sourceType'', source_type entry),
      (''sourceUrl'', source_url entry),
      (''skillFolderHash'', skill_folder_hash entry),
      (''installedAt'', installed_at entry),
      (''updatedAt'', updated_at entry)]
     @ (if truthy (skill_path entry) then [(''skillPath'', skill_path entry)] else [])"

definition lock_entry_to_dict :: "SkillLockEntry \<Rightarrow> pyval" where
  "lock_entry_to_dict entry = PyDict (lock_entry_fields entry)"

text \<open>\<open>_dict_to_lock_entry\<close>: \<open>data.get\<close> raises \<open>AttributeError\<close> when \<open>data\<close> is not a
  dictionary; from a dictionary it builds the entry \<open>entry_of_fields\<close>.\<close>

definition entry_of_fields :: "(string \<times> pyval) list \<Rightarrow> SkillLockEntry" where
  "entry_of_fields kvs =
     \<lparr>source = dict_get kvs ''source'' (PyStr []),
      source_type = dict_get kvs ''sourceType'' (PyStr []),
      source_url = dict_get kvs ''sourceUrl'' (PyStr []),
      skill_folder_hash = dict_get kvs ''skillFolderHash'' (PyStr []),
      installed_at = dict_get kvs ''installedAt'' (PyStr []),
      updated_at = dict_get kvs ''updatedAt'' (PyStr []),
      skill_path = dict_get kvs ''skillPath'' PyNone\<rparr>"

definition dict_to_lock_entry :: "pyval \<Rightarrow> error + SkillLockEntry" where
  "dict_to_lock_entry data =
     (case data of PyDict kvs \<Rightarrow> Inr (entry_of_fields kvs) | _ \<Rightarrow> Inl AttributeError)"

text \<open>A lock file always has a \<open>dismissed\<close> object, which is truthy; \<open>lastSelectedAgents\<close> is
  written only when truthy.\<close>

definition lock_file_to_dict :: "SkillLockFile \<Rightarrow> pyval" where
  "lock_file_to_dict lock =
     PyDict ([(''version'', version lock),
              (''skills'', PyDict (map (\<lambda>(name, entry). (name, lock_entry_to_dict entry)) (skills lock))),
              (''dismissed'', PyDict [(''findSkillsPrompt'', find_skills_prompt (dismissed lock))])]
             @ (if truthy (last_selected_agents lock)
                then [(''lastSelectedAgents'', last_selected_agents lock)] else []))"

text \<open>The loop \<open>for name, entry_data in ...items(): skills[name] = _dict_to_lock_entry(entry_data)\<close>,
  which stops at the first entry that raises.\<close>

fun entries_of :: "(string \<times> SkillLockEntry) list \<Rightarrow> (string \<times> pyval) list
    \<Rightarrow> error + (string \<times> SkillLockEntry) list" where
  "entries_of acc [] = Inr acc"
| "entries_of acc ((name, entry_data) # rest) =
     (case dict_to_lock_entry entry_data of
        Inl err \<Rightarrow> Inl err
      | Inr entry \<Rightarrow> entries_of (AList.update name entry acc) rest)"

definition dict_to_lock_file :: "(string \<times> pyval) list \<Rightarrow> error + SkillLockFile" where
  "dict_to_lock_file data =
     (case dict_get data ''skills'' (PyDict []) of
        PyDict items \<Rightarrow>
          (case entries_of [] items of
             Inl err \<Rightarrow> Inl err
           | Inr sk \<Rightarrow>
               (case dict_get data ''dismissed'' (PyDict []) of
                  PyDict dismissed_data \<Rightarrow>
                    Inr \<lparr>version = dict_get data ''version'' (PyInt CURRENT_VERSION),
                         skills = sk,
                         dismissed = \<lparr>find_skills_prompt =
                                        dict_get dismissed_data ''findSkillsPrompt'' (PyBool False)\<rparr>,
                         last_selected_agents = dict_get data ''lastSelectedAgents'' PyNone\<rparr>
                | _ \<Rightarrow> Inl AttributeError))
      | _ \<Rightarrow> Inl AttributeError)"

definition create_empty_lock_file :: SkillLockFile where
  "create_empty_lock_file =
     \<lparr>version = PyInt CURRENT_VERSION, skills = [],
      dismissed = \<lparr>find_skills_prompt = PyBool False\<rparr>, last_selected_agents = PyNone\<rparr>"

text \<open>
  The file at the lock path, as \<open>read_text\<close> followed by \<open>json.loads\<close> sees it: absent
  (\<open>FileNotFoundError\<close>), present and not readable (another \<open>OSError\<close>), not UTF-8
  (\<open>UnicodeDecodeError\<close>), not JSON (\<open>JSONDecodeError\<close>), or a JSON document.
\<close>

datatype lock_file = NoFile | Unreadable | NotUtf8 | NotJson | Json pyval

definition load_json :: "lock_file \<Rightarrow> error + pyval" where
  "load_json f =
     (case f of
        NoFile \<Rightarrow> Inl FileNotFoundError
      | Unreadable \<Rightarrow> Inl OSError
      | NotUtf8 \<Rightarrow> Inl UnicodeDecodeError
      | NotJson \<Rightarrow> Inl JSONDecodeError
      | Json v \<Rightarrow> Inr v)"

text \<open>\<open>isinstance(v, int)\<close>: \<open>bool\<close> is a subclass of \<open>int\<close>.\<close>

definition isinstance_int :: "pyval option \<Rightarrow> bool" where
  "isinstance_int v = (case v of Some (PyInt i) \<Rightarrow> True | Some (PyBool b) \<Rightarrow> True | _ \<Rightarrow> False)"

definition int_value :: "pyval option \<Rightarrow> int" where
  "int_value v = (case v of Some (PyInt i) \<Rightarrow> i | Some (PyBool b) \<Rightarrow> (if b then 1 else 0) | _ \<Rightarrow> 0)"

text \<open>The body of the \<open>try\<close> in \<open>read_skill_lock\<close>.\<close>

definition read_skill_lock_try :: "lock_file \<Rightarrow> error + SkillLockFile" where
  "read_skill_lock_try f =
     (case load_json f of
        Inl err \<Rightarrow> Inl err
      | Inr data \<Rightarrow>
          (case data of
             PyDict kvs \<Rightarrow>
               if \<not> isinstance_int (map_of kvs ''version'') \<or> \<not> has_key kvs ''skills''
               then Inr create_empty_lock_file
               else if int_value (map_of kvs ''version'') < CURRENT_VERSION
               then Inr create_empty_lock_file
               else dict_to_lock_file kvs
           | _ \<Rightarrow> Inl AttributeError))"

text \<open>\<open>except (FileNotFoundError, json.JSONDecodeError, OSError)\<close>.\<close>

definition read_skill_lock :: "lock_file \<Rightarrow> error + SkillLockFile" where
  "read_skill_lock f =
     (case read_skill_lock_try f of
        Inl err \<Rightarrow>
          if err = FileNotFoundError \<or> err = JSONDecodeError \<or> is_OSError err
          then Inr create_empty_lock_file else Inl err
      | Inr lock \<Rightarrow> Inr lock)"

text \<open>
  The store is the lock file and the number of times it has been written.
  \<open>write_skill_lock\<close> replaces the whole document; creating the directory and writing the
  text are taken to succeed, and \<open>json.loads\<close> gives back the value \<open>json.dumps\<close> was given.
\<close>

record store =
  the_lock_file :: lock_file
  writes :: nat

definition write_skill_lock :: "SkillLockFile \<Rightarrow> store \<Rightarrow> store" where
  "write_skill_lock lock st =
     st\<lparr>the_lock_file := Json (lock_file_to_dict lock), writes := Suc (writes st)\<rparr>"


definition remove_skill_from_lock :: "store \<Rightarrow> string \<Rightarrow> error + (bool \<times> store)" where
  "remove_skill_from_lock st skill_name =
     (case read_skill_lock (the_lock_file st) of
        Inl err \<Rightarrow> Inl err
      | Inr lock \<Rightarrow>
          if \<not> has_key (skills lock) skill_name then Inr (False, st)
          else Inr (True,
                    write_skill_lock (lock\<lparr>skills := AList.delete skill_name (skills lock)\<rparr>) st))"

section \<open>Providers: fetching\<close>

record RemoteSkill =
  name :: pyval
  description :: pyval
  content :: string
  install_name :: pyval
  remote_source_url :: string
  metadata :: "(string \<times> pyval) list option"

text \<open>\<open>except (httpx.RequestError, ValueError)\<close>, the clause that closes every fetch.\<close>

definition caught :: "error \<Rightarrow> bool" where
  "caught err = (err = RequestError \<or> is_ValueError err)"

definition try_fetch :: "error + 'a option \<Rightarrow> error + 'a option" where
  "try_fetch r = (case r of Inl err \<Rightarrow> (if caught err then Inr None else Inl err) | Inr v \<Rightarrow> Inr v)"

text \<open>The front matter without \<open>name\<close> and \<open>description\<close>; \<open>metadata if metadata else None\<close>.\<close>

definition other_metadata :: "(string \<times> pyval) list \<Rightarrow> (string \<times> pyval) list" where
  "other_metadata post = filter (\<lambda>(k, v). k \<noteq> ''name'' \<and> k \<noteq> ''description'') post"

definition metadata_or_None :: "(string \<times> pyval) list \<Rightarrow> (string \<times> pyval) list option" where
  "metadata_or_None md = (if md = [] then None else Some md)"

text \<open>The install name that the nested \<open>metadata\<close> mapping of the front matter gives under
  \<open>key\<close>, \<open>None\<close> when there is none.\<close>

definition metadata_install_name :: "(string \<times> pyval) list \<Rightarrow> string \<Rightarrow> pyval" where
  "metadata_install_name post key =
     (if has_key post ''metadata''
      then (case dict_get post ''metadata'' (PyDict []) of
              PyDict meta \<Rightarrow> dict_get meta key PyNone
            | _ \<Rightarrow> PyNone)
      else PyNone)"

text \<open>\<open>name.lower().replace(' ', '-')\<close>: only a string has \<open>lower\<close>.\<close>

definition name_to_install_name :: "pyval \<Rightarrow> error + pyval" where
  "name_to_install_name nm =
     (case nm of PyStr s \<Rightarrow> Inr (PyStr (replace (lower s) '' '' ''-'')) | _ \<Rightarrow> Inl AttributeError)"

definition MintlifyProvider_fetch_skill_try :: "env \<Rightarrow> string \<Rightarrow> error + RemoteSkill option" where
  "MintlifyProvider_fetch_skill_try e url =
     (case http_get e url of
        Inl err \<Rightarrow> Inl err
      | Inr resp \<Rightarrow>
          if status_code resp \<noteq> 200 then Inr None
          else (case front_matter resp of
                  Inl err \<Rightarrow> Inl err
                | Inr post \<Rightarrow>
                    (let nm = dict_get post ''name'' PyNone;
                         descr = dict_get post ''description'' PyNone
                     in if \<not> truthy nm \<or> \<not> truthy descr then Inr None
                        else (let md = other_metadata post;
                                  inst = metadata_install_name post ''mintlify-proj''
                              in case (if \<not> truthy inst then name_to_install_name nm else Inr inst) of
                                   Inl err \<Rightarrow> Inl err
                                 | Inr inst' \<Rightarrow>
                                     Inr (Some \<lparr>name = nm, description = descr,
                                                content = body_text resp, install_name = inst',
                                                remote_source_url = url,
                                                metadata = metadata_or_None md\<rparr>)))))"

definition MintlifyProvider_fetch_skill :: "env \<Rightarrow> string \<Rightarrow> error + RemoteSkill option" where
  "MintlifyProvider_fetch_skill e url = try_fetch (MintlifyProvider_fetch_skill_try e url)"

definition HuggingFaceProvider_fetch_skill_try :: "env \<Rightarrow> string \<Rightarrow> error + RemoteSkill option" where
  "HuggingFaceProvider_fetch_skill_try e url =
     (case http_get e (HuggingFaceProvider_to_raw_url url) of
        Inl err \<Rightarrow> Inl err
      | Inr resp \<Rightarrow>
          if status_code resp \<noteq> 200 then Inr None
          else (case front_matter resp of
                  Inl err \<Rightarrow> Inl err
                | Inr post \<Rightarrow>
                    (let nm = dict_get post ''name'' PyNone;
                         descr = dict_get post ''description'' PyNone
                     in if \<not> truthy nm \<or> \<not> truthy descr then Inr None
                        else (let md = other_metadata post;
                                  inst = metadata_install_name post ''install-name''
                              in case (if \<not> truthy inst
                                       then (case parse_url url of
                                               Some (owner, repo) \<Rightarrow> Inr (PyStr repo)
                                             | None \<Rightarrow> name_to_install_name nm)
                                       else Inr inst) of
                                   Inl err \<Rightarrow> Inl err
                                 | Inr inst' \<Rightarrow>
                                     Inr (Some \<lparr>name = nm, description = descr,
                                                content = body_text resp, install_name = inst',
                                                remote_source_url = url,
                                                metadata = metadata_or_None md\<rparr>)))))"

definition HuggingFaceProvider_fetch_skill :: "env \<Rightarrow> string \<Rightarrow> error + RemoteSkill option" where
  "HuggingFaceProvider_fetch_skill e url = try_fetch (HuggingFaceProvider_fetch_skill_try e url)"

subsection \<open>The well-known index\<close>

record WellKnownSkillEntry =
  entry_name :: pyval
  entry_description :: pyval
  entry_files :: pyval

record WellKnownIndex =
  index_skills :: "WellKnownSkillEntry list"

record WellKnownSkill = RemoteSkill +
  files :: "(pyval \<times> string) list"
  index_entry :: "WellKnownSkillEntry option"

text \<open>Iterating a value in a \<open>for\<close> loop or a comprehension: a list gives its elements, a
  string its characters, a dictionary its keys, anything else raises \<open>TypeError\<close>.\<close>

definition py_iter :: "pyval \<Rightarrow> error + pyval list" where
  "py_iter v =
     (case v of
        PyList xs \<Rightarrow> Inr xs
      | PyStr s \<Rightarrow> Inr (map (\<lambda>c. PyStr [c]) s)
      | PyDict kvs \<Rightarrow> Inr (map (\<lambda>(k, x). PyStr k) kvs)
      | _ \<Rightarrow> Inl TypeError)"

text \<open>A value inside an f-string.\<close>

definition fmt :: "env \<Rightarrow> pyval \<Rightarrow> string" where
  "fmt e v = (case v of PyStr s \<Rightarrow> s | _ \<Rightarrow> str_other e v)"

text \<open>Awaiting a list of calls (a \<open>for\<close> loop, or \<open>asyncio.gather\<close> without
  \<open>return_exceptions\<close>): the results in the order of the calls, or the exception of a call
  that raised; the model reports the first one in list order.\<close>

fun gather :: "(error + 'a) list \<Rightarrow> error + 'a list" where
  "gather [] = Inr []"
| "gather (r # rs) =
     (case r of
        Inl err \<Rightarrow> Inl err
      | Inr v \<Rightarrow> (case gather rs of Inl err \<Rightarrow> Inl err | Inr vs \<Rightarrow> Inr (v # vs)))"

definition index_entry_of :: "pyval \<Rightarrow> error + WellKnownSkillEntry" where
  "index_entry_of entry =
     (case entry of
        PyDict kvs \<Rightarrow>
          Inr \<lparr>entry_name = dict_get kvs ''name'' (PyStr []),
               entry_description = dict_get kvs ''description'' (PyStr []),
               entry_files = dict_get kvs ''files'' (PyList [])\<rparr>
      | _ \<Rightarrow> Inl AttributeError)"

definition fetch_index_try :: "env \<Rightarrow> string \<Rightarrow> error + WellKnownIndex option" where
  "fetch_index_try e index_url =
     (case http_get e index_url of
        Inl err \<Rightarrow> Inl err
      | Inr resp \<Rightarrow>
          if status_code resp \<noteq> 200 then Inr None
          else (case body_json resp of
                  Inl err \<Rightarrow> Inl err
                | Inr data \<Rightarrow>
                    (case data of
                       PyDict kvs \<Rightarrow>
                         (case py_iter (dict_get kvs ''skills'' (PyList [])) of
                            Inl err \<Rightarrow> Inl err
                          | Inr entries \<Rightarrow>
                              (case gather (map index_entry_of entries) of
                                 Inl err \<Rightarrow> Inl err
                               | Inr sk \<Rightarrow> Inr (Some \<lparr>index_skills = sk\<rparr>)))
                     | _ \<Rightarrow> Inl AttributeError)))"

definition fetch_index :: "env \<Rightarrow> string \<Rightarrow> error + WellKnownIndex option" where
  "fetch_index e base_url =
     (case get_well_known_base e base_url of
        Inl err \<Rightarrow> Inl err
      | Inr well_known_base \<Rightarrow> try_fetch (fetch_index_try e (well_known_base @ ''/index.json'')))"

text \<open>\<open>fetch_file\<close> catches every exception and answers with the text or \<open>None\<close>.\<close>

definition fetch_file :: "env \<Rightarrow> string \<Rightarrow> pyval \<Rightarrow> pyval \<times> string option" where
  "fetch_file e skill_base_url filename =
     (case http_get e (skill_base_url @ ''/'' @ fmt e filename) of
        Inl err \<Rightarrow> (filename, None)
      | Inr resp \<Rightarrow>
          if status_code resp = 200 then (filename, Some (body_text resp)) else (filename, None))"

text \<open>Keys of a dictionary: lists and dictionaries are not hashable, and numbers are equal
  keys when they are equal as numbers (\<open>1 == True == 1.0\<close>).\<close>

definition hashable :: "pyval \<Rightarrow> bool" where
  "hashable v = (case v of PyList xs \<Rightarrow> False | PyDict kvs \<Rightarrow> False | _ \<Rightarrow> True)"

definition py_num :: "pyval \<Rightarrow> real option" where
  "py_num v =
     (case v of
        PyBool b \<Rightarrow> Some (if b then 1 else 0)
      | PyInt i \<Rightarrow> Some (real_of_int i)
      | PyFloat r \<Rightarrow> Some r
      | _ \<Rightarrow> None)"

definition key_eq :: "pyval \<Rightarrow> pyval \<Rightarrow> bool" where
  "key_eq a b =
     (case (py_num a, py_num b) of
        (Some x, Some y) \<Rightarrow> x = y
      | (None, None) \<Rightarrow> a = b
      | _ \<Rightarrow> False)"

fun setitem :: "(pyval \<times> string) list \<Rightarrow> pyval \<Rightarrow> string \<Rightarrow> (pyval \<times> string) list" where
  "setitem [] k v = [(k, v)]"
| "setitem ((k', v') # kvs) k v =
     (if key_eq k' k then (k', v) # kvs else (k', v') # setitem kvs k v)"

text \<open>The loop \<open>for filename, file_content in results: if file_content is not None:
  files[filename] = file_content\<close>.\<close>

fun store_files :: "(pyval \<times> string) list \<Rightarrow> (pyval \<times> string option) list
    \<Rightarrow> error + (pyval \<times> string) list" where
  "store_files fs [] = Inr fs"
| "store_files fs ((filename, file_content) # rest) =
     (case file_content of
        None \<Rightarrow> store_files fs rest
      | Some txt \<Rightarrow>
          if hashable filename then store_files (setitem fs filename txt) rest
          else Inl TypeError)"

definition fetch_skill_by_entry_try ::
  "env \<Rightarrow> string \<Rightarrow> WellKnownSkillEntry \<Rightarrow> error + WellKnownSkill option" where
  "fetch_skill_by_entry_try e skill_base_url entry =
     (let skill_md_url = skill_base_url @ ''/SKILL.md''
      in case http_get e skill_md_url of
           Inl err \<Rightarrow> Inl err
         | Inr resp \<Rightarrow>
             if status_code resp \<noteq> 200 then Inr None
             else (case front_matter resp of
                     Inl err \<Rightarrow> Inl err
                   | Inr post \<Rightarrow>
                       (let nm = dict_get post ''name'' (entry_name entry);
                            descr = dict_get post ''description'' (entry_description entry);
                            md = other_metadata post;
                            files0 = [(PyStr ''SKILL.md'', body_text resp)]
                        in case (if truthy (entry_files entry)
                                 then (case py_iter (entry_files entry) of
                                         Inl err \<Rightarrow> Inl err
                                       | Inr fs \<Rightarrow>
                                           store_files files0
                                             (map (fetch_file e skill_base_url)
                                                (filter (\<lambda>f. f \<noteq> PyStr ''SKILL.md'') fs)))
                                 else Inr files0) of
                             Inl err \<Rightarrow> Inl err
                           | Inr fls \<Rightarrow>
                               Inr (Some \<lparr>name = nm, description = descr,
                                          content = body_text resp,
                                          install_name = entry_name entry,
                                          remote_source_url = skill_md_url,
                                          metadata = metadata_or_None md,
                                          files = fls, index_entry = Some entry\<rparr>))))"

definition fetch_skill_by_entry ::
  "env \<Rightarrow> string \<Rightarrow> WellKnownSkillEntry \<Rightarrow> error + WellKnownSkill option" where
  "fetch_skill_by_entry e base_url entry =
     (case get_well_known_base e base_url of
        Inl err \<Rightarrow> Inl err
      | Inr well_known_base \<Rightarrow>
          try_fetch (fetch_skill_by_entry_try e (well_known_base @ ''/'' @ fmt e (entry_name entry)) entry))"

text \<open>The skill name that a URL asks for after \<open>/.well-known/skills/\<close>, if any.\<close>

definition requested_skill_name :: "string \<Rightarrow> string option" where
  "requested_skill_name url =
     (case find_str url ''/.well-known/skills/'' of
        None \<Rightarrow> None
      | Some idx \<Rightarrow>
          (let remainder = strip CHR ''/'' (drop (idx + length ''/.well-known/skills/'') url)
           in if remainder \<noteq> [] \<and> CHR ''/'' \<notin> set remainder then Some remainder else None))"

definition WellKnownProvider_fetch_skill :: "env \<Rightarrow> string \<Rightarrow> error + WellKnownSkill option" where
  "WellKnownProvider_fetch_skill e url =
     (case fetch_index e url of
        Inl err \<Rightarrow> Inl err
      | Inr None \<Rightarrow> Inr None
      | Inr (Some index) \<Rightarrow>
          if index_skills index = [] then Inr None
          else (case requested_skill_name url of
                  Some skill_name \<Rightarrow>
                    (case List.find (\<lambda>entry. entry_name entry = PyStr skill_name) (index_skills index) of
                       Some entry \<Rightarrow> fetch_skill_by_entry e url entry
                     | None \<Rightarrow> Inr None)
                | None \<Rightarrow> fetch_skill_by_entry e url (hd (index_skills index))))"

definition fetch_all_skills :: "env \<Rightarrow> string \<Rightarrow> error + WellKnownSkill list" where
  "fetch_all_skills e url =
     (case fetch_index e url of
        Inl err \<Rightarrow> Inl err
      | Inr None \<Rightarrow> Inr []
      | Inr (Some index) \<Rightarrow>
          if index_skills index = [] then Inr []
          else (case gather (map (fetch_skill_by_entry e url) (index_skills index)) of
                  Inl err \<Rightarrow> Inl err
                | Inr results \<Rightarrow> Inr (List.map_filter (\<lambda>skill. skill) results)))"

section \<open>providers/__init__.py: the registry\<close>

datatype provider = HuggingFaceProvider | MintlifyProvider | WellKnownProvider

datatype fetched = Remote RemoteSkill | WellKnown WellKnownSkill

fun provider_id :: "provider \<Rightarrow> string" where
  "provider_id HuggingFaceProvider = ''huggingface''"
| "provider_id MintlifyProvider = ''mintlify''"
| "provider_id WellKnownProvider = ''well-known''"

fun provider_match :: "env \<Rightarrow> provider \<Rightarrow> string \<Rightarrow> ProviderMatch" where
  "provider_match e HuggingFaceProvider url = HuggingFaceProvider_match e url"
| "provider_match e MintlifyProvider url = MintlifyProvider_match e url"
| "provider_match e WellKnownProvider url = WellKnownProvider_match e url"

fun provider_fetch_skill :: "env \<Rightarrow> provider \<Rightarrow> string \<Rightarrow> error + fetched option" where
  "provider_fetch_skill e HuggingFaceProvider url =
     map_sum id (map_option Remote) (HuggingFaceProvider_fetch_skill e url)"
| "provider_fetch_skill e MintlifyProvider url =
     map_sum id (map_option Remote) (MintlifyProvider_fetch_skill e url)"
| "provider_fetch_skill e WellKnownProvider url =
     map_sum id (map_option WellKnown) (WellKnownProvider_fetch_skill e url)"

definition register :: "provider list \<Rightarrow> provider \<Rightarrow> provider list" where
  "register providers p =
     (if provider_id p \<in> set (map provider_id providers) then providers else providers @ [p])"

definition registry :: "provider list" where
  "registry = register (register [] HuggingFaceProvider) MintlifyProvider"

definition find_provider_in :: "env \<Rightarrow> provider list \<Rightarrow> string \<Rightarrow> provider option" where
  "find_provider_in e providers url = List.find (\<lambda>p. matches (provider_match e p url)) providers"

definition find_provider :: "env \<Rightarrow> string \<Rightarrow> provider option" where
  "find_provider e url = find_provider_in e registry url"

definition fetch_remote_skill :: "env \<Rightarrow> string \<Rightarrow> error + fetched option" where
  "fetch_remote_skill e url =
     (case find_provider e url of
        Some p \<Rightarrow> provider_fetch_skill e p url
      | None \<Rightarrow>
          if matches (WellKnownProvider_match e url)
          then provider_fetch_skill e WellKnownProvider url
          else Inr None)"

section \<open>Auxiliary predicates\<close>

text \<open>
  Two predicates for the proofs about \<open>urlparse\<close>: the characters a path component cannot
  hold (it ends before \<open>#\<close> and \<open>?\<close>, and tab, carriage return and line feed are removed
  from the URL first), and the characters a network location cannot hold.
\<close>

definition path_text :: "string \<Rightarrow> bool" where
  "path_text s =
     (\<forall>c\<in>set s. c \<noteq> CHR ''#'' \<and> c \<noteq> CHR ''?'' \<and> c \<noteq> CHR 0x09 \<and> c \<noteq> CHR 0x0D \<and> c \<noteq> CHR 0x0A)"

definition netloc_text :: "string \<Rightarrow> bool" where
  "netloc_text s = (\<forall>c\<in>set s. \<not> is_delim c \<and> c \<noteq> CHR 0x09 \<and> c \<noteq> CHR 0x0D \<and> c \<noteq> CHR 0x0A)"

section \<open>Example environments\<close>

text \<open>Nothing answers: every request fails with a network error.\<close>

definition no_network :: env where
  "no_network =
     \<lparr>check_bracketed_host = (\<lambda>h. False), http_get = (\<lambda>url. Inl RequestError),
      str_other = (\<lambda>v. [])\<rparr>"

text \<open>A lock file with one skill, installed at \<open>t0\<close>.\<close>

definition example_store :: store where
  "example_store =
     \<lparr>the_lock_file =
        Json (PyDict [(''version'', PyInt 3),
                      (''skills'', PyDict [(''alpha'',
                          PyDict [(''source'', PyStr ''owner/repo''),
                                  (''sourceType'', PyStr ''github''),
                                  (''sourceUrl'', PyStr ''https://github.com/owner/repo.git''),
                                  (''skillFolderHash'', PyStr ''abc''),
                                  (''installedAt'', PyStr ''t0''),
                                  (''updatedAt'', PyStr ''t0'')])])]),
      writes = 0\<rparr>"

text \<open>
  A site for the examples. \<open>docs.example.com\<close> serves a skill document and, under
  \<open>/numeric/\<close>, one whose front matter has the number 123 as its \<open>name\<close>;
  \<open>huggingface.co/spaces/skill.md\<close> serves the latter too. \<open>example.com\<close> has a well-known
  index of two skills: \<open>alpha\<close>, with its \<open>SKILL.md\<close> and a file \<open>notes.md\<close>, and \<open>beta\<close>,
  whose \<open>SKILL.md\<close> is not found. Every other URL answers 404.
\<close>

definition skill_document :: response where
  "skill_document =
     \<lparr>status_code = 200,
      body_text = ''---'' @ [CHR 0x0A] @ ''name: Demo Skill'' @ [CHR 0x0A]
                  @ ''description: A demo'' @ [CHR 0x0A] @ ''---'' @ [CHR 0x0A] @ ''Body'',
      body_json = Inl JSONDecodeError,
      front_matter = Inr [(''name'', PyStr ''Demo Skill''), (''description'', PyStr ''A demo'')]\<rparr>"

definition numeric_name_document :: response where
  "numeric_name_document =
     \<lparr>status_code = 200,
      body_text = ''---'' @ [CHR 0x0A] @ ''name: 123'' @ [CHR 0x0A]
                  @ ''description: A demo'' @ [CHR 0x0A] @ ''---'' @ [CHR 0x0A] @ ''Body'',
      body_json = Inl JSONDecodeError,
      front_matter = Inr [(''name'', PyInt 123), (''description'', PyStr ''A demo'')]\<rparr>"

definition notes_document :: response where
  "notes_document =
     \<lparr>status_code = 200, body_text = ''Notes'', body_json = Inl JSONDecodeError,
      front_matter = Inr []\<rparr>"

definition index_document :: response where
  "index_document =
     \<lparr>status_code = 200,
      body_text = ''{...}'',
      body_json = Inr (PyDict [(''skills'', PyList
         [PyDict [(''name'', PyStr ''alpha''), (''description'', PyStr ''First''),
                  (''files'', PyList [PyStr ''SKILL.md'', PyStr ''notes.md''])],
          PyDict [(''name'', PyStr ''beta''), (''description'', PyStr ''Second''),
                  (''files'', PyList [PyStr ''SKILL.md''])]])]),
      front_matter = Inr []\<rparr>"

definition not_found :: response where
  "not_found =
     \<lparr>status_code = 404, body_text = ''Not Found'', body_json = Inl JSONDecodeError,
      front_matter = Inr []\<rparr>"

definition example_site :: env where
  "example_site =
     \<lparr>check_bracketed_host = (\<lambda>h. False),
      http_get = (\<lambda>url.
        if url = ''https://docs.example.com/skill.md'' then Inr skill_document
        else if url = ''https://docs.example.com/numeric/skill.md'' then Inr numeric_name_document
        else if url = ''https://huggingface.co/spaces/skill.md'' then Inr numeric_name_document
        else if url = ''https://example.com/.well-known/skills/index.json'' then Inr index_document
        else if url = ''https://example.com/.well-known/skills/alpha/SKILL.md'' then Inr skill_document
        else if url = ''https://example.com/.well-known/skills/alpha/notes.md'' then Inr notes_document
        else Inr not_found),
      str_other = (\<lambda>v. [])\<rparr>"

section \<open>Properties\<close>

subsection \<open>Strings\<close>

lemma contains_iff_find: "contains s sub \<longleftrightarrow> find_str s sub \<noteq> None"
  by (induction s) auto

lemma find_Some_iff_contains: "(\<exists>i. find_str s sub = Some i) \<longleftrightarrow> contains s sub"
  by (simp add: contains_iff_find)


lemma takeWhile_append_stop:
  "\<forall>x\<in>set xs. P x \<Longrightarrow> \<not> P y \<Longrightarrow> takeWhile P (xs @ y # ys) = xs"
  by (induction xs) auto

lemma dropWhile_append_stop:
  "\<forall>x\<in>set xs. P x \<Longrightarrow> \<not> P y \<Longrightarrow> dropWhile P (xs @ y # ys) = y # ys"
  by (induction xs) auto

subsection \<open>Matching\<close>

lemma matches_no_match [simp]: "\<not> matches no_match"
  by (simp add: no_match_def)

lemma mintlify_match_True:
  "matches (MintlifyProvider_match e url) \<longleftrightarrow>
     (startswith url ''http://'' \<or> startswith url ''https://'')
     \<and> endswith (lower url) ''/skill.md''
     \<and> (\<exists>parsed. urlparse e url = Inr parsed \<and> hostname_or_empty parsed \<notin> set EXCLUDED_HOSTS)"
  by (auto simp: MintlifyProvider_match_def split: sum.splits)

lemma wellknown_match_True:
  "matches (WellKnownProvider_match e url) \<longleftrightarrow>
     (startswith url ''http://'' \<or> startswith url ''https://'')
     \<and> (\<exists>parsed. urlparse e url = Inr parsed \<and> hostname_or_empty parsed \<notin> set EXCLUDED_HOSTS)
     \<and> \<not> endswith (lower url) ''/skill.md'' \<and> \<not> endswith url ''.git''"
  by (auto simp: WellKnownProvider_match_def split: sum.splits)



lemma EXCLUDED_HOSTS_set:
  "set EXCLUDED_HOSTS = {''github.com'', ''gitlab.com'', ''huggingface.co'', ''raw.githubusercontent.com''}"
  by (simp add: EXCLUDED_HOSTS_def)





lemma registry_eq: "registry = [HuggingFaceProvider, MintlifyProvider]"
  by (simp add: registry_def register_def)

text \<open>
  Claim C9. No URL is matched by both the Mintlify provider and the well-known provider:
  a Mintlify match requires the URL to end, case-insensitively, in \<open>/skill.md\<close>, and the
  well-known provider rejects every URL that ends so.
\<close>

theorem mintlify_wellknown_disjoint:
  "(matches (MintlifyProvider_match e url) \<longrightarrow> endswith (lower url) ''/skill.md'')
   \<and> (endswith (lower url) ''/skill.md'' \<longrightarrow> \<not> matches (WellKnownProvider_match e url))
   \<and> \<not> (matches (MintlifyProvider_match e url) \<and> matches (WellKnownProvider_match e url))"
  by (simp add: mintlify_match_True wellknown_match_True)

theorem mintlify_wellknown_disjoint_witness:
  "matches (MintlifyProvider_match no_network ''https://docs.example.com/api/SKILL.md'')
   \<and> endswith (lower ''https://docs.example.com/api/SKILL.md'') ''/skill.md''
   \<and> \<not> matches (WellKnownProvider_match no_network ''https://docs.example.com/api/SKILL.md'')"
proof -
  have m: "matches (MintlifyProvider_match no_network ''https://docs.example.com/api/SKILL.md'')"
    by code_simp
  from m mintlify_wellknown_disjoint [of no_network "''https://docs.example.com/api/SKILL.md''"]
  show ?thesis by blast
qed

text \<open>
  Claim C4, as amended. The Mintlify provider matches a URL exactly when it starts with
  \<open>http://\<close> or \<open>https://\<close>, ends case-insensitively in \<open>/skill.md\<close>, is accepted by
  \<open>urlparse\<close>, and its host name (the empty string when the URL has none) is none of
  \<open>github.com\<close>, \<open>gitlab.com\<close>, \<open>huggingface.co\<close>, \<open>raw.githubusercontent.com\<close>. On a match
  the source identifier is \<open>mintlify/<host>\<close> when the URL has a host name and
  \<open>mintlify/com\<close> when it has none, and \<open>to_raw_url\<close> returns the URL unchanged.
\<close>

theorem mintlify_match_spec:
  "(matches (MintlifyProvider_match e url) \<longleftrightarrow>
      (startswith url ''http://'' \<or> startswith url ''https://'')
      \<and> endswith (lower url) ''/skill.md''
      \<and> (\<exists>parsed. urlparse e url = Inr parsed
            \<and> hostname_or_empty parsed \<notin>
                {''github.com'', ''gitlab.com'', ''huggingface.co'', ''raw.githubusercontent.com''}))
   \<and> (matches (MintlifyProvider_match e url) \<longrightarrow>
        (\<exists>parsed. urlparse e url = Inr parsed
           \<and> source_identifier (MintlifyProvider_match e url) =
               Some (''mintlify/'' @ (case hostname parsed of Some h \<Rightarrow> h | None \<Rightarrow> ''com''))))
   \<and> MintlifyProvider_to_raw_url url = url"
proof -
  have a: "matches (MintlifyProvider_match e url) \<Longrightarrow>
        (\<exists>parsed. urlparse e url = Inr parsed
           \<and> source_identifier (MintlifyProvider_match e url) =
               Some (''mintlify/'' @ (case hostname parsed of Some h \<Rightarrow> h | None \<Rightarrow> ''com'')))"
    by (auto simp: MintlifyProvider_match_def MintlifyProvider_get_source_identifier_def
        split: sum.splits if_splits)
  show ?thesis
    using a by (simp add: mintlify_match_True EXCLUDED_HOSTS_set MintlifyProvider_to_raw_url_def)
qed

theorem mintlify_match_spec_witness:
  "matches (MintlifyProvider_match no_network ''https://docs.bun.sh/api/skill.md'')
   \<and> source_identifier (MintlifyProvider_match no_network ''https://docs.bun.sh/api/skill.md'')
       = Some ''mintlify/docs.bun.sh''
   \<and> MintlifyProvider_to_raw_url ''https://docs.bun.sh/api/skill.md'' = ''https://docs.bun.sh/api/skill.md''"
proof -
  let ?u = "''https://docs.bun.sh/api/skill.md''"
  have p: "urlparse no_network ?u =
     Inr \<lparr>scheme = ''https'', netloc = ''docs.bun.sh'', path = ''/api/skill.md'', params = [],
          query = [], fragment = []\<rparr>"
    by code_simp
  have h: "hostname \<lparr>scheme = ''https'', netloc = ''docs.bun.sh'', path = ''/api/skill.md'', params = [],
          query = [], fragment = []\<rparr> = Some ''docs.bun.sh''"
    by code_simp
  have s: "startswith ?u ''https://''" and en: "endswith (lower ?u) ''/skill.md''"
    by code_simp+
  have m: "matches (MintlifyProvider_match no_network ?u)"
    using mintlify_match_spec [of no_network ?u] p h s en
    by (simp add: hostname_or_empty_def)
  from m mintlify_match_spec [of no_network ?u] p h show ?thesis by auto
qed

text \<open>
  Claim C4 as stated fails at \<open>https:///skill.md\<close>: the URL has no host name, it is matched,
  and its source identifier is \<open>mintlify/com\<close>, which is not \<open>mintlify/\<close> followed by the host.
\<close>

theorem mintlify_identifier_counterexample:
  "matches (MintlifyProvider_match no_network ''https:///skill.md'')
   \<and> map_sum id hostname (urlparse no_network ''https:///skill.md'') = Inr None
   \<and> source_identifier (MintlifyProvider_match no_network ''https:///skill.md'') = Some ''mintlify/com''"
  by code_simp




text \<open>
  Claim C3. The default registry holds the HuggingFace provider and then the Mintlify
  provider, and not the well-known provider. \<open>fetch_remote_skill\<close> delegates to the first
  registered provider that matches the URL; when none matches it delegates to the
  well-known provider exactly when that one matches, and returns \<open>None\<close> otherwise.
\<close>

theorem fetch_remote_skill_dispatch:
  "registry = [HuggingFaceProvider, MintlifyProvider]
   \<and> WellKnownProvider \<notin> set registry
   \<and> fetch_remote_skill e url =
       (if matches (HuggingFaceProvider_match e url) then provider_fetch_skill e HuggingFaceProvider url
        else if matches (MintlifyProvider_match e url) then provider_fetch_skill e MintlifyProvider url
        else if matches (WellKnownProvider_match e url) then provider_fetch_skill e WellKnownProvider url
        else Inr None)"
  by (simp add: registry_eq fetch_remote_skill_def find_provider_def find_provider_in_def)

theorem fetch_remote_skill_dispatch_witness:
  "fetch_remote_skill no_network ''https://huggingface.co/spaces/owner/repo/blob/main/SKILL.md''
     = provider_fetch_skill no_network HuggingFaceProvider
         ''https://huggingface.co/spaces/owner/repo/blob/main/SKILL.md''
   \<and> fetch_remote_skill no_network ''https://docs.example.com/api/skill.md''
     = provider_fetch_skill no_network MintlifyProvider ''https://docs.example.com/api/skill.md''
   \<and> fetch_remote_skill no_network ''https://example.com/docs''
     = provider_fetch_skill no_network WellKnownProvider ''https://example.com/docs''
   \<and> fetch_remote_skill no_network ''git@example.com:repo.git'' = Inr None"
proof -
  have hf: "matches (HuggingFaceProvider_match no_network
              ''https://huggingface.co/spaces/owner/repo/blob/main/SKILL.md'')"
    by code_simp
  have mi: "\<not> matches (HuggingFaceProvider_match no_network ''https://docs.example.com/api/skill.md'')"
    "matches (MintlifyProvider_match no_network ''https://docs.example.com/api/skill.md'')"
    by code_simp+
  have wk: "\<not> matches (HuggingFaceProvider_match no_network ''https://example.com/docs'')"
    "\<not> matches (MintlifyProvider_match no_network ''https://example.com/docs'')"
    "matches (WellKnownProvider_match no_network ''https://example.com/docs'')"
    by code_simp+
  have no: "\<not> matches (HuggingFaceProvider_match no_network ''git@example.com:repo.git'')"
    "\<not> matches (MintlifyProvider_match no_network ''git@example.com:repo.git'')"
    "\<not> matches (WellKnownProvider_match no_network ''git@example.com:repo.git'')"
    by code_simp+
  show ?thesis
    using hf mi wk no
      fetch_remote_skill_dispatch [of no_network "''https://huggingface.co/spaces/owner/repo/blob/main/SKILL.md''"]
      fetch_remote_skill_dispatch [of no_network "''https://docs.example.com/api/skill.md''"]
      fetch_remote_skill_dispatch [of no_network "''https://example.com/docs''"]
      fetch_remote_skill_dispatch [of no_network "''git@example.com:repo.git''"]
    by simp
qed


subsection \<open>The lock store\<close>

lemma update_fresh:
  "k \<notin> fst ` set al \<Longrightarrow> AList.update k v al = al @ [(k, v)]"
  by (induction al) auto

lemma entries_of_distinct:
  "distinct (map fst acc) \<Longrightarrow> entries_of acc items = Inr r \<Longrightarrow> distinct (map fst r)"
proof (induction acc items rule: entries_of.induct)
  case (1 acc)
  then show ?case by simp
next
  case (2 acc name entry_data rest)
  then show ?case
    by (auto split: sum.splits simp: distinct_update)
qed

lemma entries_of_dicts:
  assumes "distinct (map fst entries)"
    and "fst ` set acc \<inter> fst ` set entries = {}"
  shows "entries_of acc (map (\<lambda>(n, fields). (n, PyDict fields)) entries) =
           Inr (acc @ map (\<lambda>(n, fields). (n, entry_of_fields fields)) entries)"
  using assms
proof (induction entries arbitrary: acc)
  case Nil
  then show ?case by simp
next
  case (Cons nf entries)
  obtain n fields where nf: "nf = (n, fields)" by (cases nf)
  from Cons.prems(2) nf have fresh: "n \<notin> fst ` set acc" by auto
  have "entries_of (acc @ [(n, entry_of_fields fields)]) (map (\<lambda>(n, fields). (n, PyDict fields)) entries) =
          Inr ((acc @ [(n, entry_of_fields fields)]) @ map (\<lambda>(n, fields). (n, entry_of_fields fields)) entries)"
  proof (rule Cons.IH)
    show "distinct (map fst entries)" using Cons.prems(1) by simp
    show "fst ` set (acc @ [(n, entry_of_fields fields)]) \<inter> fst ` set entries = {}"
      using Cons.prems(1,2) nf by auto
  qed
  then show ?case
    using nf fresh by (simp add: update_fresh dict_to_lock_entry_def)
qed

lemma lock_entry_to_dict_fields: "lock_entry_to_dict entry = PyDict (lock_entry_fields entry)"
  by (simp add: lock_entry_to_dict_def)

lemma entry_of_lock_entry_fields:
  "entry_of_fields (lock_entry_fields entry) =
     entry\<lparr>skill_path := (if truthy (skill_path entry) then skill_path entry else PyNone)\<rparr>"
  by (simp add: lock_entry_fields_def entry_of_fields_def dict_get_def)

lemma lock_entry_to_dict_normal:
  "lock_entry_to_dict (entry\<lparr>skill_path := (if truthy (skill_path entry) then skill_path entry else PyNone)\<rparr>)
     = lock_entry_to_dict entry"
  by (simp add: lock_entry_to_dict_def lock_entry_fields_def)

lemma read_skill_lock_sound:
  assumes "read_skill_lock f = Inr lock"
  shows "isinstance_int (Some (version lock))" "CURRENT_VERSION \<le> int_value (Some (version lock))"
    "distinct (map fst (skills lock))"
proof -
  have "isinstance_int (Some (version lock)) \<and> CURRENT_VERSION \<le> int_value (Some (version lock))
      \<and> distinct (map fst (skills lock))"
  proof (cases "lock = create_empty_lock_file")
    case True
    then show ?thesis
      by (simp add: create_empty_lock_file_def isinstance_int_def int_value_def)
  next
    case False
    with assms obtain kvs where kvs: "f = Json (PyDict kvs)"
      "isinstance_int (map_of kvs ''version'')"
      "CURRENT_VERSION \<le> int_value (map_of kvs ''version'')"
      "dict_to_lock_file kvs = Inr lock"
      by (auto simp: read_skill_lock_def read_skill_lock_try_def load_json_def
          split: sum.splits if_splits lock_file.splits pyval.splits)
    from kvs(2) obtain v where v: "map_of kvs ''version'' = Some v"
      by (auto simp: isinstance_int_def split: option.splits)
    from kvs(4) obtain items sk where
      "entries_of [] items = Inr sk" "skills lock = sk" "version lock = dict_get kvs ''version'' (PyInt CURRENT_VERSION)"
      by (auto simp: dict_to_lock_file_def split: pyval.splits sum.splits)
    with entries_of_distinct [of "[]" items sk] v kvs(2,3) show ?thesis
      by (simp add: dict_get_def)
  qed
  then show "isinstance_int (Some (version lock))" "CURRENT_VERSION \<le> int_value (Some (version lock))"
    "distinct (map fst (skills lock))" by simp_all
qed

lemma read_written:
  assumes "isinstance_int (Some (version lock))" "CURRENT_VERSION \<le> int_value (Some (version lock))"
    "distinct (map fst (skills lock))"
  shows "read_skill_lock (Json (lock_file_to_dict lock)) =
     Inr (lock\<lparr>skills := map (\<lambda>(n, en). (n, en\<lparr>skill_path :=
                                (if truthy (skill_path en) then skill_path en else PyNone)\<rparr>)) (skills lock),
              last_selected_agents :=
                (if truthy (last_selected_agents lock) then last_selected_agents lock else PyNone)\<rparr>)"
proof -
  let ?entries = "map (\<lambda>(name, entry). (name, lock_entry_fields entry)) (skills lock)"
  let ?items = "map (\<lambda>(name, entry). (name, lock_entry_to_dict entry)) (skills lock)"
  have items: "?items = map (\<lambda>(n, fields). (n, PyDict fields)) ?entries"
    by (simp add: case_prod_unfold comp_def lock_entry_to_dict_fields)
  have fst_entries: "map fst ?entries = map fst (skills lock)"
    by (simp add: case_prod_unfold comp_def)
  have "entries_of [] (map (\<lambda>(n, fields). (n, PyDict fields)) ?entries) =
          Inr ([] @ map (\<lambda>(n, fields). (n, entry_of_fields fields)) ?entries)"
  proof (rule entries_of_dicts)
    show "distinct (map fst ?entries)" by (simp only: fst_entries assms(3))
    show "fst ` set [] \<inter> fst ` set ?entries = {}" by simp
  qed
  then have e: "entries_of [] ?items =
      Inr (map (\<lambda>(n, en). (n, en\<lparr>skill_path :=
                  (if truthy (skill_path en) then skill_path en else PyNone)\<rparr>)) (skills lock))"
    unfolding items by (simp add: case_prod_unfold comp_def entry_of_lock_entry_fields)
  show ?thesis
    using assms(1,2) e
    by (simp add: read_skill_lock_def read_skill_lock_try_def load_json_def lock_file_to_dict_def
        has_key_def dict_to_lock_file_def dict_get_def)
qed


lemma read_skill_lock_empty_cases:
  "read_skill_lock NoFile = Inr create_empty_lock_file"
  "read_skill_lock Unreadable = Inr create_empty_lock_file"
  "read_skill_lock NotJson = Inr create_empty_lock_file"
  by (simp_all add: read_skill_lock_def read_skill_lock_try_def load_json_def is_OSError_def)

lemma read_skill_lock_guard:
  "\<not> isinstance_int (map_of kvs ''version'') \<or> \<not> has_key kvs ''skills''
     \<or> int_value (map_of kvs ''version'') < CURRENT_VERSION
   \<Longrightarrow> read_skill_lock (Json (PyDict kvs)) = Inr create_empty_lock_file"
  by (auto simp: read_skill_lock_def read_skill_lock_try_def load_json_def)

lemma read_skill_lock_parsed:
  assumes v: "map_of kvs ''version'' = Some (PyInt n)" "CURRENT_VERSION \<le> n"
    and sk: "map_of kvs ''skills'' = Some (PyDict (map (\<lambda>(nm, fields). (nm, PyDict fields)) entries))"
    and d: "distinct (map fst entries)"
    and dm: "map_of kvs ''dismissed'' = None \<or> map_of kvs ''dismissed'' = Some (PyDict dd)"
  shows "read_skill_lock (Json (PyDict kvs)) =
     Inr \<lparr>version = PyInt n,
          skills = map (\<lambda>(nm, fields). (nm, entry_of_fields fields)) entries,
          dismissed = \<lparr>find_skills_prompt =
             (if map_of kvs ''dismissed'' = None then PyBool False
              else dict_get dd ''findSkillsPrompt'' (PyBool False))\<rparr>,
          last_selected_agents = dict_get kvs ''lastSelectedAgents'' PyNone\<rparr>"
proof -
  have hk: "has_key kvs ''skills''"
    using map_of_SomeD [OF sk] by (force simp: has_key_def)
  have e: "entries_of [] (map (\<lambda>(nm, fields). (nm, PyDict fields)) entries) =
      Inr ([] @ map (\<lambda>(nm, fields). (nm, entry_of_fields fields)) entries)"
    by (rule entries_of_dicts [OF d]) simp
  from dm show ?thesis
  proof
    assume "map_of kvs ''dismissed'' = None"
    then show ?thesis
      using v sk hk e
      by (simp add: read_skill_lock_def read_skill_lock_try_def load_json_def isinstance_int_def
          int_value_def dict_to_lock_file_def dict_get_def)
  next
    assume "map_of kvs ''dismissed'' = Some (PyDict dd)"
    then show ?thesis
      using v sk hk e
      by (simp add: read_skill_lock_def read_skill_lock_try_def load_json_def isinstance_int_def
          int_value_def dict_to_lock_file_def dict_get_def)
  qed
qed

lemma length_removeAll_distinct:
  "distinct xs \<Longrightarrow> x \<in> set xs \<Longrightarrow> length (removeAll x xs) + 1 = length xs"
  by (induction xs) auto

lemma map_of_map_entries:
  "map_of (map (\<lambda>(n, en). (n, g en)) al) k = map_option g (map_of al k)"
  by (induction al) auto

lemma map_fst_map_entries: "map fst (map (\<lambda>(n, en). (n, g en)) al) = map fst al"
  by (simp add: case_prod_unfold comp_def)

lemma write_then_read:
  assumes "read_skill_lock (the_lock_file st) = Inr lock" "distinct (map fst sk)"
  shows "read_skill_lock (the_lock_file (write_skill_lock (lock\<lparr>skills := sk\<rparr>) st)) =
     Inr (lock\<lparr>skills := map (\<lambda>(n, en). (n, en\<lparr>skill_path :=
                                (if truthy (skill_path en) then skill_path en else PyNone)\<rparr>)) sk,
              last_selected_agents :=
                (if truthy (last_selected_agents lock) then last_selected_agents lock else PyNone)\<rparr>)"
  using read_written [of "lock\<lparr>skills := sk\<rparr>"] read_skill_lock_sound(1,2) [OF assms(1)] assms(2)
  by (simp add: write_skill_lock_def)

text \<open>
  Claim C1, as amended. \<open>read_skill_lock\<close> returns a fresh empty \<open>SkillLockFile\<close> when the
  file is missing, cannot be read (an \<open>OSError\<close>) or is not JSON, and when it is a JSON
  object whose \<open>version\<close> is not an integer, that has no \<open>skills\<close> key, or whose \<open>version\<close> is
  below the current schema number 3. For a JSON object with an integer \<open>version\<close> of at least
  3, a \<open>skills\<close> object whose values are objects and a \<open>dismissed\<close> value that is absent or an
  object, it returns the parsed contents: that version, one entry per skill built from the
  skill's fields, the dismissed flag and the last selected agents.
\<close>

theorem read_skill_lock_spec:
  "(f = NoFile \<or> f = Unreadable \<or> f = NotJson \<longrightarrow> read_skill_lock f = Inr create_empty_lock_file)
   \<and> (\<forall>kvs. f = Json (PyDict kvs)
          \<and> (\<not> isinstance_int (map_of kvs ''version'') \<or> \<not> has_key kvs ''skills''
               \<or> int_value (map_of kvs ''version'') < CURRENT_VERSION)
        \<longrightarrow> read_skill_lock f = Inr create_empty_lock_file)
   \<and> (\<forall>kvs n entries dd. f = Json (PyDict kvs)
          \<and> map_of kvs ''version'' = Some (PyInt n) \<and> CURRENT_VERSION \<le> n
          \<and> map_of kvs ''skills'' = Some (PyDict (map (\<lambda>(nm, fields). (nm, PyDict fields)) entries))
          \<and> distinct (map fst entries)
          \<and> (map_of kvs ''dismissed'' = None \<or> map_of kvs ''dismissed'' = Some (PyDict dd))
        \<longrightarrow> read_skill_lock f =
              Inr \<lparr>version = PyInt n,
                   skills = map (\<lambda>(nm, fields). (nm, entry_of_fields fields)) entries,
                   dismissed = \<lparr>find_skills_prompt =
                     (if map_of kvs ''dismissed'' = None then PyBool False
                      else dict_get dd ''findSkillsPrompt'' (PyBool False))\<rparr>,
                   last_selected_agents = dict_get kvs ''lastSelectedAgents'' PyNone\<rparr>)"
proof (intro conjI allI impI)
  assume "f = NoFile \<or> f = Unreadable \<or> f = NotJson"
  then show "read_skill_lock f = Inr create_empty_lock_file"
    using read_skill_lock_empty_cases by blast
next
  fix kvs
  assume "f = Json (PyDict kvs)
          \<and> (\<not> isinstance_int (map_of kvs ''version'') \<or> \<not> has_key kvs ''skills''
               \<or> int_value (map_of kvs ''version'') < CURRENT_VERSION)"
  then show "read_skill_lock f = Inr create_empty_lock_file"
    using read_skill_lock_guard [of kvs] by blast
next
  fix kvs n entries dd
  assume a: "f = Json (PyDict kvs)
          \<and> map_of kvs ''version'' = Some (PyInt n) \<and> CURRENT_VERSION \<le> n
          \<and> map_of kvs ''skills'' = Some (PyDict (map (\<lambda>(nm, fields). (nm, PyDict fields)) entries))
          \<and> distinct (map fst entries)
          \<and> (map_of kvs ''dismissed'' = None \<or> map_of kvs ''dismissed'' = Some (PyDict dd))"
  then have "f = Json (PyDict kvs)" by blast
  moreover from a have "read_skill_lock (Json (PyDict kvs)) =
              Inr \<lparr>version = PyInt n,
                   skills = map (\<lambda>(nm, fields). (nm, entry_of_fields fields)) entries,
                   dismissed = \<lparr>find_skills_prompt =
                     (if map_of kvs ''dismissed'' = None then PyBool False
                      else dict_get dd ''findSkillsPrompt'' (PyBool False))\<rparr>,
                   last_selected_agents = dict_get kvs ''lastSelectedAgents'' PyNone\<rparr>"
    by (intro read_skill_lock_parsed) blast+
  ultimately show "read_skill_lock f =
              Inr \<lparr>version = PyInt n,
                   skills = map (\<lambda>(nm, fields). (nm, entry_of_fields fields)) entries,
                   dismissed = \<lparr>find_skills_prompt =
                     (if map_of kvs ''dismissed'' = None then PyBool False
                      else dict_get dd ''findSkillsPrompt'' (PyBool False))\<rparr>,
                   last_selected_agents = dict_get kvs ''lastSelectedAgents'' PyNone\<rparr>"
    by simp
qed


theorem read_skill_lock_spec_witness:
  "read_skill_lock NoFile = Inr create_empty_lock_file
   \<and> read_skill_lock (Json (PyDict [(''version'', PyInt 2), (''skills'', PyDict [])]))
       = Inr create_empty_lock_file
   \<and> read_skill_lock (Json (PyDict [(''version'', PyInt 3),
          (''skills'', PyDict [(''a'', PyDict [(''installedAt'', PyStr ''t0'')])])]))
       = Inr \<lparr>version = PyInt 3,
              skills = [(''a'', entry_of_fields [(''installedAt'', PyStr ''t0'')])],
              dismissed = \<lparr>find_skills_prompt = PyBool False\<rparr>,
              last_selected_agents = PyNone\<rparr>"
proof -
  let ?old = "[(''version'', PyInt 2), (''skills'', PyDict [])]"
  let ?new = "[(''version'', PyInt 3),
          (''skills'', PyDict [(''a'', PyDict [(''installedAt'', PyStr ''t0'')])])]"
  have a: "read_skill_lock NoFile = Inr create_empty_lock_file"
    using read_skill_lock_spec [of NoFile] by simp
  have b: "read_skill_lock (Json (PyDict ?old)) = Inr create_empty_lock_file"
    using read_skill_lock_spec [of "Json (PyDict ?old)", THEN conjunct2, THEN conjunct1,
        rule_format, of ?old]
    by (simp add: int_value_def CURRENT_VERSION_def)
  have c: "read_skill_lock (Json (PyDict ?new))
       = Inr \<lparr>version = PyInt 3,
              skills = [(''a'', entry_of_fields [(''installedAt'', PyStr ''t0'')])],
              dismissed = \<lparr>find_skills_prompt = PyBool False\<rparr>,
              last_selected_agents = PyNone\<rparr>"
    using read_skill_lock_spec [of "Json (PyDict ?new)", THEN conjunct2, THEN conjunct2,
        rule_format, of ?new 3 "[(''a'', [(''installedAt'', PyStr ''t0'')])]" "[]"]
    by (simp add: CURRENT_VERSION_def dict_get_def)
  from a b c show ?thesis by blast
qed

text \<open>
  Claim C1 as stated fails on a file that holds a JSON object with the current version and
  no \<open>skills\<close> key: the file is present, readable and parses, its version is not below the
  current one, and \<open>read_skill_lock\<close> still returns the empty structure instead of the parsed
  contents, which have the dismissed flag set.
\<close>

theorem read_skill_lock_counterexample:
  "load_json (Json (PyDict [(''version'', PyInt 3),
       (''dismissed'', PyDict [(''findSkillsPrompt'', PyBool True)])]))
     = Inr (PyDict [(''version'', PyInt 3), (''dismissed'', PyDict [(''findSkillsPrompt'', PyBool True)])])
   \<and> \<not> (3 < CURRENT_VERSION)
   \<and> dict_to_lock_file [(''version'', PyInt 3), (''dismissed'', PyDict [(''findSkillsPrompt'', PyBool True)])]
     = Inr \<lparr>version = PyInt 3, skills = [],
            dismissed = \<lparr>find_skills_prompt = PyBool True\<rparr>, last_selected_agents = PyNone\<rparr>
   \<and> read_skill_lock (Json (PyDict [(''version'', PyInt 3),
       (''dismissed'', PyDict [(''findSkillsPrompt'', PyBool True)])]))
     = Inr \<lparr>version = PyInt 3, skills = [],
            dismissed = \<lparr>find_skills_prompt = PyBool False\<rparr>, last_selected_agents = PyNone\<rparr>"
  by (simp add: load_json_def CURRENT_VERSION_def dict_to_lock_file_def dict_get_def
      read_skill_lock_def read_skill_lock_try_def isinstance_int_def has_key_def
      create_empty_lock_file_def)

text \<open>
  What the amended claim leaves out: a file that is not UTF-8, a JSON document that is not
  an object, and an object whose \<open>skills\<close> value is not an object make \<open>read_skill_lock\<close>
  raise, since its \<open>except\<close> clause names neither \<open>UnicodeDecodeError\<close> nor
  \<open>AttributeError\<close>.
\<close>

lemma read_skill_lock_raises:
  "read_skill_lock NotUtf8 = Inl UnicodeDecodeError"
  "read_skill_lock (Json (PyList [])) = Inl AttributeError"
  "read_skill_lock (Json (PyDict [(''version'', PyInt 3), (''skills'', PyList [])]))
     = Inl AttributeError"
  by (simp_all add: read_skill_lock_def read_skill_lock_try_def load_json_def is_OSError_def
      isinstance_int_def int_value_def has_key_def CURRENT_VERSION_def dict_to_lock_file_def
      dict_get_def)


lemma ex_alpha: "has_key [(''alpha'', x)] ''alpha''" "\<not> has_key [(''alpha'', x)] ''beta''"
  by (simp_all add: has_key_def)


text \<open>
  Claim C10. Whenever \<open>remove_skill_from_lock\<close> reads a lock that has the name, it returns
  \<open>True\<close> and writes the lock file once, with that one entry deleted and every other entry
  as it was; when the lock does not have the name it returns \<open>False\<close> and leaves the store,
  its write count included, as it was.
\<close>

theorem remove_skill_from_lock_spec:
  assumes "read_skill_lock (the_lock_file st) = Inr lock"
  shows "(has_key (skills lock) skill_name \<longrightarrow>
           (\<exists>st' lock'.
               remove_skill_from_lock st skill_name = Inr (True, st')
             \<and> writes st' = Suc (writes st)
             \<and> the_lock_file st' =
                 Json (lock_file_to_dict (lock\<lparr>skills := AList.delete skill_name (skills lock)\<rparr>))
             \<and> read_skill_lock (the_lock_file st') = Inr lock'
             \<and> map fst (skills lock') = removeAll skill_name (map fst (skills lock))
             \<and> length (skills lock') + 1 = length (skills lock)
             \<and> map_of (skills lock') skill_name = None
             \<and> (\<forall>n. n \<noteq> skill_name \<longrightarrow>
                   map_option lock_entry_to_dict (map_of (skills lock') n) =
                   map_option lock_entry_to_dict (map_of (skills lock) n))))
       \<and> (\<not> has_key (skills lock) skill_name \<longrightarrow>
            remove_skill_from_lock st skill_name = Inr (False, st))"
proof (intro conjI impI)
  assume absent: "\<not> has_key (skills lock) skill_name"
  with assms show "remove_skill_from_lock st skill_name = Inr (False, st)"
    by (simp add: remove_skill_from_lock_def)
next
  assume present: "has_key (skills lock) skill_name"
  let ?norm = "\<lambda>en. en\<lparr>skill_path := (if truthy (skill_path en) then skill_path en else PyNone)\<rparr>"
  define sk where "sk = AList.delete skill_name (skills lock)"
  define st' where "st' = write_skill_lock (lock\<lparr>skills := sk\<rparr>) st"
  define lock' where "lock' = lock\<lparr>skills := map (\<lambda>(n, en). (n, ?norm en)) sk,
              last_selected_agents :=
                (if truthy (last_selected_agents lock) then last_selected_agents lock else PyNone)\<rparr>"
  have d0: "distinct (map fst (skills lock))"
    by (rule read_skill_lock_sound(3) [OF assms])
  have d: "distinct (map fst sk)"
    unfolding sk_def using d0 by (rule distinct_delete)
  have 1: "remove_skill_from_lock st skill_name = Inr (True, st')"
    using assms present by (simp add: remove_skill_from_lock_def st'_def sk_def)
  have 2: "writes st' = Suc (writes st)"
    by (simp add: st'_def write_skill_lock_def)
  have 3: "the_lock_file st' =
      Json (lock_file_to_dict (lock\<lparr>skills := AList.delete skill_name (skills lock)\<rparr>))"
    by (simp add: st'_def write_skill_lock_def sk_def)
  have 4: "read_skill_lock (the_lock_file st') = Inr lock'"
    unfolding st'_def lock'_def by (rule write_then_read [OF assms d])
  have 5: "map fst (skills lock') = removeAll skill_name (map fst (skills lock))"
  proof -
    have "map fst (skills lock') = map fst sk"
      by (simp add: lock'_def case_prod_unfold comp_def)
    then show ?thesis
      by (simp add: sk_def delete_keys)
  qed
  have "length (removeAll skill_name (map fst (skills lock))) + 1 = length (map fst (skills lock))"
    using d0 present unfolding has_key_def by (rule length_removeAll_distinct)
  then have 6: "length (skills lock') + 1 = length (skills lock)"
    using 5 by (metis length_map)
  have 7: "map_of (skills lock') skill_name = None"
    by (simp add: lock'_def map_of_map_entries sk_def delete_conv')
  have 8: "\<forall>n. n \<noteq> skill_name \<longrightarrow>
          map_option lock_entry_to_dict (map_of (skills lock') n) =
          map_option lock_entry_to_dict (map_of (skills lock) n)"
    by (simp add: lock'_def map_of_map_entries sk_def option.map_comp comp_def
        lock_entry_to_dict_normal)
  from 1 2 3 4 5 6 7 8 show "\<exists>st' lock'.
               remove_skill_from_lock st skill_name = Inr (True, st')
             \<and> writes st' = Suc (writes st)
             \<and> the_lock_file st' =
                 Json (lock_file_to_dict (lock\<lparr>skills := AList.delete skill_name (skills lock)\<rparr>))
             \<and> read_skill_lock (the_lock_file st') = Inr lock'
             \<and> map fst (skills lock') = removeAll skill_name (map fst (skills lock))
             \<and> length (skills lock') + 1 = length (skills lock)
             \<and> map_of (skills lock') skill_name = None
             \<and> (\<forall>n. n \<noteq> skill_name \<longrightarrow>
                   map_option lock_entry_to_dict (map_of (skills lock') n) =
                   map_option lock_entry_to_dict (map_of (skills lock) n))"
    by blast
qed


theorem remove_skill_from_lock_spec_witness:
  "(\<exists>st' lock'. remove_skill_from_lock example_store ''alpha'' = Inr (True, st')
      \<and> writes st' = 1
      \<and> read_skill_lock (the_lock_file st') = Inr lock'
      \<and> skills lock' = [])
   \<and> remove_skill_from_lock example_store ''beta'' = Inr (False, example_store)"
proof -
  let ?fields = "[(''source'', PyStr ''owner/repo''), (''sourceType'', PyStr ''github''),
      (''sourceUrl'', PyStr ''https://github.com/owner/repo.git''),
      (''skillFolderHash'', PyStr ''abc''), (''installedAt'', PyStr ''t0''),
      (''updatedAt'', PyStr ''t0'')]"
  let ?lock = "\<lparr>version = PyInt 3, skills = [(''alpha'', entry_of_fields ?fields)],
      dismissed = \<lparr>find_skills_prompt = PyBool False\<rparr>, last_selected_agents = PyNone\<rparr>"
  have r: "read_skill_lock (the_lock_file example_store) = Inr ?lock"
    by (simp add: example_store_def read_skill_lock_def read_skill_lock_try_def load_json_def
        isinstance_int_def int_value_def has_key_def CURRENT_VERSION_def dict_to_lock_file_def
        dict_get_def dict_to_lock_entry_def)
  have p: "has_key (skills ?lock) ''alpha''" and q: "\<not> has_key (skills ?lock) ''beta''"
    by (simp_all add: ex_alpha)
  from remove_skill_from_lock_spec [OF r, of "''alpha''"] p
  obtain st' lock' where
    1: "remove_skill_from_lock example_store ''alpha'' = Inr (True, st')"
    and 2: "writes st' = Suc (writes example_store)"
    and 3: "read_skill_lock (the_lock_file st') = Inr lock'"
    and 4: "length (skills lock') + 1 = length (skills ?lock)"
    by blast
  from 2 have w2: "writes st' = 1" by (simp add: example_store_def)
  from 4 have w4: "skills lock' = []" by simp
  have b: "remove_skill_from_lock example_store ''beta'' = Inr (False, example_store)"
    using remove_skill_from_lock_spec [OF r, of "''beta''"] q by blast
  have a: "\<exists>st' lock'. remove_skill_from_lock example_store ''alpha'' = Inr (True, st')
      \<and> writes st' = 1
      \<and> read_skill_lock (the_lock_file st') = Inr lock'
      \<and> skills lock' = []"
    by (rule exI [of _ st'], rule exI [of _ lock']) (simp only: 1 w2 3 w4 simp_thms)
  from a b show ?thesis by (rule conjI)
qed


subsection \<open>Fetching\<close>



lemma mintlify_fetch_skill_handled:
  "http_get e url = Inl RequestError \<Longrightarrow> MintlifyProvider_fetch_skill e url = Inr None"
  "http_get e url = Inr resp \<Longrightarrow> status_code resp \<noteq> 200
     \<Longrightarrow> MintlifyProvider_fetch_skill e url = Inr None"
  "http_get e url = Inr resp \<Longrightarrow> status_code resp = 200 \<Longrightarrow> front_matter resp = Inl err
     \<Longrightarrow> is_ValueError err \<Longrightarrow> MintlifyProvider_fetch_skill e url = Inr None"
  "http_get e url = Inr resp \<Longrightarrow> status_code resp = 200 \<Longrightarrow> front_matter resp = Inr post
     \<Longrightarrow> \<not> truthy (dict_get post ''name'' PyNone) \<or> \<not> truthy (dict_get post ''description'' PyNone)
     \<Longrightarrow> MintlifyProvider_fetch_skill e url = Inr None"
  by (auto simp: MintlifyProvider_fetch_skill_def MintlifyProvider_fetch_skill_try_def try_fetch_def
      caught_def)

lemma huggingface_fetch_skill_handled:
  "http_get e (HuggingFaceProvider_to_raw_url url) = Inl RequestError
     \<Longrightarrow> HuggingFaceProvider_fetch_skill e url = Inr None"
  "http_get e (HuggingFaceProvider_to_raw_url url) = Inr resp \<Longrightarrow> status_code resp \<noteq> 200
     \<Longrightarrow> HuggingFaceProvider_fetch_skill e url = Inr None"
  "http_get e (HuggingFaceProvider_to_raw_url url) = Inr resp \<Longrightarrow> status_code resp = 200
     \<Longrightarrow> front_matter resp = Inl err \<Longrightarrow> is_ValueError err
     \<Longrightarrow> HuggingFaceProvider_fetch_skill e url = Inr None"
  "http_get e (HuggingFaceProvider_to_raw_url url) = Inr resp \<Longrightarrow> status_code resp = 200
     \<Longrightarrow> front_matter resp = Inr post
     \<Longrightarrow> \<not> truthy (dict_get post ''name'' PyNone) \<or> \<not> truthy (dict_get post ''description'' PyNone)
     \<Longrightarrow> HuggingFaceProvider_fetch_skill e url = Inr None"
  by (auto simp: HuggingFaceProvider_fetch_skill_def HuggingFaceProvider_fetch_skill_try_def
      try_fetch_def caught_def)

lemma fetch_skill_yaml_error:
  "http_get e url = Inr resp \<Longrightarrow> status_code resp = 200 \<Longrightarrow> front_matter resp = Inl YAMLError
     \<Longrightarrow> MintlifyProvider_fetch_skill e url = Inl YAMLError"
  by (simp add: MintlifyProvider_fetch_skill_def MintlifyProvider_fetch_skill_try_def try_fetch_def
      caught_def is_ValueError_def)

lemma gather_raises:
  "Inl err \<in> set rs \<Longrightarrow> \<exists>err'. gather rs = Inl err'"
  by (induction rs) (auto split: sum.splits)

lemma fetch_all_skills_raises:
  assumes "fetch_index e url = Inr (Some index)" "entry \<in> set (index_skills index)"
    "fetch_skill_by_entry e url entry = Inl err"
  shows "\<exists>err'. fetch_all_skills e url = Inl err'"
proof -
  from assms(2,3) have "Inl err \<in> set (map (fetch_skill_by_entry e url) (index_skills index))"
    by force
  from gather_raises [OF this] obtain err' where
    "gather (map (fetch_skill_by_entry e url) (index_skills index)) = Inl err'" ..
  with assms(1,2) show ?thesis
    by (auto simp: fetch_all_skills_def)
qed

text \<open>
  Claim C2 at a failing input. A fetch that answers 200 with a document whose front matter
  gives a number as \<open>name\<close> and no install name leaves \<open>fetch_skill\<close> as an \<open>AttributeError\<close>
  (\<open>name.lower()\<close> on an integer), for the Mintlify provider and, at a URL without owner and
  repository, for the HuggingFace provider: the \<open>except\<close> clause names only
  \<open>httpx.RequestError\<close> and \<open>ValueError\<close>. The failures the clause does handle are in
  \<open>mintlify_fetch_skill_handled\<close> and \<open>huggingface_fetch_skill_handled\<close>.
\<close>

theorem fetch_skill_numeric_name_raises:
  "MintlifyProvider_fetch_skill example_site ''https://docs.example.com/numeric/skill.md''
     = Inl AttributeError
   \<and> HuggingFaceProvider_fetch_skill example_site ''https://huggingface.co/spaces/skill.md''
     = Inl AttributeError"
  by code_simp




subsection \<open>The well-known base\<close>

lemma find_str_occurs:
  "find_str s m = Some i \<Longrightarrow> i + length m \<le> length s \<and> take (i + length m) s = take i s @ m"
proof (induction s arbitrary: i)
  case Nil
  then show ?case by (simp split: if_splits)
next
  case (Cons c cs)
  show ?case
  proof (cases "prefix m (c # cs)")
    case True
    with Cons.prems have "i = 0" by simp
    moreover from True obtain t where "c # cs = m @ t" by (auto simp: prefix_def)
    ultimately show ?thesis by (metis add_0 append_eq_conv_conj le_add1 length_append take0 append_Nil)
  next
    case False
    with Cons.prems obtain j where j: "find_str cs m = Some j" "i = Suc j" by auto
    from Cons.IH [OF j(1)] j(2) show ?thesis by simp
  qed
qed

lemma find_str_append:
  "find_str s m = Some i \<Longrightarrow> find_str (s @ t) m = Some i"
proof (induction s arbitrary: i)
  case Nil
  then show ?case by (cases t) (auto split: if_splits)
next
  case (Cons c cs)
  show ?case
  proof (cases "prefix m (c # cs)")
    case True
    then have "prefix m ((c # cs) @ t)" by (rule prefix_prefix)
    with True Cons.prems show ?thesis by simp
  next
    case False
    with Cons.prems obtain j where j: "find_str cs m = Some j" "i = Suc j" by auto
    from find_str_occurs [OF j(1)] have len: "length m \<le> length cs" by simp
    have "\<not> prefix m ((c # cs) @ t)"
    proof
      assume "prefix m ((c # cs) @ t)"
      moreover have "length m \<le> length (c # cs)" using len by simp
      ultimately have "prefix m (c # cs)"
        by (metis prefix_append prefix_length_prefix prefix_order.eq_iff prefix_def append_prefixD
            prefixI prefix_length_le)
      with False show False ..
    qed
    with Cons.IH [OF j(1)] j(2) show ?thesis by simp
  qed
qed

lemma no_self_overlap:
  "\<forall>k\<in>{1..<19}. take k well_known_skills @ take (19 - k) well_known_skills \<noteq> well_known_skills"
  by code_simp


lemma marker_length: "length well_known_skills = 19"
  by (simp add: well_known_skills_def)

lemma marker_no_overlap:
  assumes "prefix well_known_skills (x @ well_known_skills)"
  shows "x = [] \<or> prefix well_known_skills x"
proof (cases "length x < 19")
  case False
  then have "length well_known_skills \<le> length x" by (simp add: marker_length)
  with assms show ?thesis
    by (metis prefix_length_prefix prefixI)
next
  case True
  from assms obtain t where t: "x @ well_known_skills = well_known_skills @ t"
    by (auto simp: prefix_def)
  from True have k: "length x \<le> length well_known_skills" by (simp add: marker_length)
  from t k have x: "x = take (length x) well_known_skills"
    by (metis append_eq_conv_conj take_append take_all_iff diff_is_0_eq' append_Nil2 take0 order_refl)
  from t have "take 19 (x @ well_known_skills) = well_known_skills"
    by (simp add: marker_length)
  with True have "x @ take (19 - length x) well_known_skills = well_known_skills"
    by simp
  with x have e: "take (length x) well_known_skills @ take (19 - length x) well_known_skills
      = well_known_skills" by simp
  show ?thesis
  proof (cases "x = []")
    case True
    then show ?thesis ..
  next
    case False
    with \<open>length x < 19\<close> have "length x \<in> {1..<19}" by (cases x) auto
    with no_self_overlap e show ?thesis by blast
  qed
qed

lemma find_str_marker_end:
  "find_str s well_known_skills = None \<Longrightarrow>
   find_str (s @ well_known_skills) well_known_skills = Some (length s)"
proof (induction s)
  case Nil
  then show ?case by (simp add: well_known_skills_def)
next
  case (Cons c cs)
  from Cons.prems have np: "\<not> prefix well_known_skills (c # cs)"
    and n: "find_str cs well_known_skills = None"
    by (auto split: if_splits)
  have "\<not> prefix well_known_skills ((c # cs) @ well_known_skills)"
    using marker_no_overlap [of "c # cs"] np by auto
  with Cons.IH [OF n] show ?case by simp
qed

lemma find_str_take:
  "find_str s m = Some i \<Longrightarrow> find_str (take (i + length m) s) m = Some i"
proof (induction s arbitrary: i)
  case Nil
  then show ?case by (simp split: if_splits)
next
  case (Cons c cs)
  show ?case
  proof (cases "prefix m (c # cs)")
    case True
    with Cons.prems have i: "i = 0" by simp
    from True have "take (length m) (c # cs) = m"
      by (auto simp: prefix_def)
    moreover have "find_str m m = Some 0"
      by (cases m) auto
    ultimately show ?thesis using i by simp
  next
    case False
    with Cons.prems obtain j where j: "find_str cs m = Some j" "i = Suc j" by auto
    have "\<not> prefix m (c # take (j + length m) cs)"
    proof
      assume "prefix m (c # take (j + length m) cs)"
      moreover have "prefix (c # take (j + length m) cs) (c # cs)"
        by (simp add: take_is_prefix)
      ultimately have "prefix m (c # cs)" by (rule prefix_order.trans)
      with False show False ..
    qed
    with Cons.IH [OF j(1)] j(2) show ?thesis by simp
  qed
qed

lemma rstrip_append:
  assumes "a \<noteq> []" "last a \<noteq> c"
  shows "\<exists>y'. rstrip c (a @ y) = a @ y'"
proof (cases "\<forall>x\<in>set (rev y). x = c")
  case True
  from assms have "dropWhile (\<lambda>x. x = c) (rev a) = rev a"
    by (cases "rev a") (auto simp: last_rev [symmetric] hd_rev)
  with True have "rstrip c (a @ y) = a @ []"
    by (simp add: rstrip_def dropWhile_append)
  then show ?thesis ..
next
  case False
  then have "rstrip c (a @ y) = a @ rev (dropWhile (\<lambda>x. x = c) (rev y))"
    by (auto simp: rstrip_def dropWhile_append)
  then show ?thesis ..
qed

lemma rstrip_prefix: "prefix (rstrip c s) s"
proof -
  have "s = rev (dropWhile (\<lambda>x. x = c) (rev s)) @ rev (takeWhile (\<lambda>x. x = c) (rev s))"
    by (metis rev_append rev_rev_ident takeWhile_dropWhile_id)
  then show ?thesis
    unfolding rstrip_def by (metis prefixI)
qed

lemma splitparams_last_segment:
  assumes "CHR ''/'' \<notin> set l"
  shows "splitparams (f @ CHR ''/'' # l) =
     (if CHR '';'' \<in> set l
      then (f @ CHR ''/'' # takeWhile (\<lambda>c. c \<noteq> CHR '';'') l, drop 1 (dropWhile (\<lambda>c. c \<noteq> CHR '';'') l))
      else (f @ CHR ''/'' # l, []))"
proof -
  have all: "\<forall>x\<in>set (rev l). x \<noteq> CHR ''/''" using assms by auto
  have "takeWhile (\<lambda>c. c \<noteq> CHR ''/'') (rev l @ CHR ''/'' # rev f) = rev l"
    by (rule takeWhile_append_stop [OF all]) simp
  then have lastseg: "rev (takeWhile (\<lambda>c. c \<noteq> CHR ''/'') (rev (f @ CHR ''/'' # l))) = l"
    by simp
  show ?thesis
    unfolding splitparams_def Let_def lastseg
    by (simp add: split_once_def)
qed


lemma is_http_cases:
  assumes "is_http url"
  obtains s r where "s = ''http'' \<or> s = ''https''" "url = s @ ''://'' @ r"
proof -
  from assms consider r where "url = ''http://'' @ r" | r where "url = ''https://'' @ r"
    by (auto simp: is_http_def startswith_def prefix_def)
  then show ?thesis
  proof cases
    case 1
    then have "url = ''http'' @ ''://'' @ r" by simp
    then show ?thesis using that by blast
  next
    case 2
    then have "url = ''https'' @ ''://'' @ r" by simp
    then show ?thesis using that by blast
  qed
qed

lemma remove_unsafe_id:
  "\<forall>c\<in>set s. c \<noteq> CHR 0x09 \<and> c \<noteq> CHR 0x0D \<and> c \<noteq> CHR 0x0A \<Longrightarrow> remove_unsafe s = s"
  by (simp add: remove_unsafe_def)

lemma remove_unsafe_set:
  "c \<in> set (remove_unsafe s) \<Longrightarrow> c \<noteq> CHR 0x09 \<and> c \<noteq> CHR 0x0D \<and> c \<noteq> CHR 0x0A"
  by (simp add: remove_unsafe_def)

lemma remove_unsafe_append: "remove_unsafe (a @ b) = remove_unsafe a @ remove_unsafe b"
  by (simp add: remove_unsafe_def)

lemma urlsplit_http:
  assumes "s = ''http'' \<or> s = ''https''"
  shows "urlsplit e (s @ ''://'' @ r) =
     (if netloc_ok e (takeWhile (\<lambda>c. \<not> is_delim c) (remove_unsafe r))
      then Inr (split_rest s (takeWhile (\<lambda>c. \<not> is_delim c) (remove_unsafe r))
                  (dropWhile (\<lambda>c. \<not> is_delim c) (remove_unsafe r)))
      else Inl ValueError)"
proof -
  have a: "lstrip_c0 (s @ ''://'' @ r) = s @ ''://'' @ r"
    using assms by (auto simp: lstrip_c0_def)
  have b: "remove_unsafe (s @ ''://'' @ r) = s @ ''://'' @ remove_unsafe r"
    using assms by (auto simp: remove_unsafe_def)
  have c: "split_scheme (s @ ''://'' @ t) = (s, ''//'' @ t)" for t
    using assms
    by (auto simp: split_scheme_def ascii_alpha_def scheme_chars_def lower_def)
  show ?thesis
    unfolding urlsplit_def a b c by (simp add: splitnetloc_def)
qed

lemma split_rest_path:
  "scheme (split_rest s nl rest) = s" "netloc (split_rest s nl rest) = nl"
  "path (split_rest s nl rest) =
     takeWhile (\<lambda>c. c \<noteq> CHR ''?'') (takeWhile (\<lambda>c. c \<noteq> CHR ''#'') rest)"
  by (simp_all add: split_rest_def split_once_def)


lemma splitparams_fst:
  assumes "p = [] \<or> hd p = CHR ''/''"
  shows "(fst (splitparams p) = [] \<or> hd (fst (splitparams p)) = CHR ''/'')
         \<and> set (fst (splitparams p)) \<subseteq> set p"
proof (cases "CHR ''/'' \<in> set p")
  case False
  with assms have "p = []" by (cases p) auto
  then show ?thesis by (simp add: splitparams_def split_once_def)
next
  case True
  from split_list_last [OF True] obtain f l where fl: "p = f @ CHR ''/'' # l" "CHR ''/'' \<notin> set l"
    by blast
  have hdf: "hd (f @ CHR ''/'' # t) = CHR ''/''" for t
    using assms fl(1) by (cases f) auto
  have sub: "set (takeWhile (\<lambda>c. c \<noteq> CHR '';'') l) \<subseteq> set l"
    by (auto dest: set_takeWhileD)
  show ?thesis
    unfolding fl(1) splitparams_last_segment [OF fl(2)]
    using hdf sub by auto
qed

lemma splitparams_keep:
  assumes "CHR ''/'' \<notin> set u1" "CHR '';'' \<notin> set u1"
  shows "\<exists>y'. fst (splitparams (u0 @ CHR ''/'' # u1 @ y)) = u0 @ CHR ''/'' # u1 @ y'"
proof (cases "CHR ''/'' \<in> set y")
  case True
  from split_list_last [OF True] obtain ys zs where y: "y = ys @ CHR ''/'' # zs" "CHR ''/'' \<notin> set zs"
    by blast
  have w: "u0 @ CHR ''/'' # u1 @ y = (u0 @ CHR ''/'' # u1 @ ys) @ CHR ''/'' # zs"
    by (simp add: y(1))
  show ?thesis
  proof (cases "CHR '';'' \<in> set zs")
    case True
    then have "fst (splitparams (u0 @ CHR ''/'' # u1 @ y)) =
        u0 @ CHR ''/'' # u1 @ (ys @ CHR ''/'' # takeWhile (\<lambda>c. c \<noteq> CHR '';'') zs)"
      unfolding w splitparams_last_segment [OF y(2)] by simp
    then show ?thesis ..
  next
    case False
    then have "fst (splitparams (u0 @ CHR ''/'' # u1 @ y)) = u0 @ CHR ''/'' # u1 @ y"
      unfolding w splitparams_last_segment [OF y(2)] by (simp add: y(1))
    then show ?thesis ..
  qed
next
  case False
  with assms(1) have l: "CHR ''/'' \<notin> set (u1 @ y)" by simp
  have t: "takeWhile (\<lambda>c. c \<noteq> CHR '';'') (u1 @ y) = u1 @ takeWhile (\<lambda>c. c \<noteq> CHR '';'') y"
    using assms(2) by (intro takeWhile_append2) auto
  have "fst (splitparams (u0 @ CHR ''/'' # (u1 @ y))) =
      (if CHR '';'' \<in> set (u1 @ y) then u0 @ CHR ''/'' # u1 @ takeWhile (\<lambda>c. c \<noteq> CHR '';'') y
       else u0 @ CHR ''/'' # u1 @ y)"
    unfolding splitparams_last_segment [OF l] t by simp
  then show ?thesis by (cases "CHR '';'' \<in> set (u1 @ y)") auto
qed



lemma uses_params_http: "''http'' \<in> set uses_params" "''https'' \<in> set uses_params"
  by (simp_all add: uses_params_def)

lemma urlparse_after_urlsplit:
  assumes "urlsplit e url = Inr r0" "scheme r0 \<in> set uses_params"
  shows "urlparse e url =
     Inr (if CHR '';'' \<in> set (path r0)
          then r0\<lparr>path := fst (splitparams (path r0)), params := snd (splitparams (path r0))\<rparr>
          else r0)"
  using assms by (simp add: urlparse_def)

lemma urlparse_http_split:
  assumes s: "s = ''http'' \<or> s = ''https''"
    and p: "urlparse e (s @ ''://'' @ r) = Inr parsed"
  shows "netloc_ok e (takeWhile (\<lambda>c. \<not> is_delim c) (remove_unsafe r))
    \<and> urlsplit e (s @ ''://'' @ r) =
        Inr (split_rest s (takeWhile (\<lambda>c. \<not> is_delim c) (remove_unsafe r))
                  (dropWhile (\<lambda>c. \<not> is_delim c) (remove_unsafe r)))"
proof (cases "netloc_ok e (takeWhile (\<lambda>c. \<not> is_delim c) (remove_unsafe r))")
  case True
  then show ?thesis using urlsplit_http [OF s, of e r] by simp
next
  case False
  then have "urlsplit e (s @ ''://'' @ r) = Inl ValueError"
    using urlsplit_http [OF s, of e r] by simp
  then have "urlparse e (s @ ''://'' @ r) = Inl ValueError"
    by (simp add: urlparse_def)
  with p show ?thesis by simp
qed


lemma path_text_subset: "path_text b \<Longrightarrow> set a \<subseteq> set b \<Longrightarrow> path_text a"
  unfolding path_text_def by (meson subsetD)

lemma urlparse_http_parts:
  assumes s: "s = ''http'' \<or> s = ''https''"
    and p: "urlparse e (s @ ''://'' @ r) = Inr parsed"
  shows "scheme parsed = s" "netloc_text (netloc parsed)" "netloc_ok e (netloc parsed)"
    "path_text (path parsed)" "path parsed = [] \<or> hd (path parsed) = CHR ''/''"
proof -
  define r' where "r' = remove_unsafe r"
  define nl where "nl = takeWhile (\<lambda>c. \<not> is_delim c) r'"
  define rest where "rest = dropWhile (\<lambda>c. \<not> is_delim c) r'"
  define path0 where "path0 = takeWhile (\<lambda>c. c \<noteq> CHR ''?'') (takeWhile (\<lambda>c. c \<noteq> CHR ''#'') rest)"
  define r0 where "r0 = split_rest s nl rest"
  from urlparse_http_split [OF s p]
  have ok: "netloc_ok e nl" and sp: "urlsplit e (s @ ''://'' @ r) = Inr r0"
    by (simp_all add: nl_def rest_def r'_def r0_def)
  have r0: "scheme r0 = s" "netloc r0 = nl" "path r0 = path0"
    by (simp_all add: r0_def split_rest_path path0_def)
  have "scheme r0 \<in> set uses_params"
    using s uses_params_http by (auto simp: r0(1))
  from urlparse_after_urlsplit [OF sp this] p
  have parsed0: "parsed = (if CHR '';'' \<in> set (path r0)
          then r0\<lparr>path := fst (splitparams (path r0)), params := snd (splitparams (path r0))\<rparr>
          else r0)"
    by simp
  note parsed = parsed0 [unfolded r0(3)]
  from parsed show "scheme parsed = s" by (simp add: r0(1))
  from parsed have nlp: "netloc parsed = nl" by (simp add: r0(2))
  from parsed have pc: "path parsed = path0 \<or> path parsed = fst (splitparams path0)"
    by (auto simp: r0(3))
  have safe_r': "\<And>c. c \<in> set r' \<Longrightarrow> c \<noteq> CHR 0x09 \<and> c \<noteq> CHR 0x0D \<and> c \<noteq> CHR 0x0A"
    unfolding r'_def by (rule remove_unsafe_set)
  have nl_sub: "\<And>c. c \<in> set nl \<Longrightarrow> c \<in> set r' \<and> \<not> is_delim c"
    unfolding nl_def by (rule set_takeWhileD)
  show "netloc_text (netloc parsed)"
    unfolding nlp netloc_text_def using safe_r' nl_sub by blast
  from ok show "netloc_ok e (netloc parsed)" by (simp add: nlp)
  have rest_sub: "\<And>c. c \<in> set rest \<Longrightarrow> c \<in> set r'"
    unfolding rest_def by (rule set_dropWhileD)
  have path0_sub: "\<And>c. c \<in> set path0 \<Longrightarrow> c \<in> set rest \<and> c \<noteq> CHR ''#'' \<and> c \<noteq> CHR ''?''"
  proof -
    fix c assume "c \<in> set path0"
    then have "c \<in> set (takeWhile (\<lambda>c. c \<noteq> CHR ''#'') rest) \<and> c \<noteq> CHR ''?''"
      unfolding path0_def by (rule set_takeWhileD)
    then show "c \<in> set rest \<and> c \<noteq> CHR ''#'' \<and> c \<noteq> CHR ''?''"
      using set_takeWhileD [of c "\<lambda>c. c \<noteq> CHR ''#''" rest] by blast
  qed
  have pt0: "path_text path0"
    unfolding path_text_def using path0_sub rest_sub safe_r' by blast
  have hd_rest: "rest = [] \<or> is_delim (hd rest)"
    unfolding rest_def using hd_dropWhile [of "\<lambda>c. \<not> is_delim c" r'] by blast
  have hd0: "path0 = [] \<or> hd path0 = CHR ''/''"
  proof (cases rest)
    case Nil
    then show ?thesis by (simp add: path0_def)
  next
    case (Cons c cs)
    with hd_rest have "c = CHR ''/'' \<or> c = CHR ''?'' \<or> c = CHR ''#''"
      by (simp add: is_delim_def)
    then show ?thesis
      unfolding path0_def Cons by auto
  qed
  from splitparams_fst [OF hd0] have fsp:
    "fst (splitparams path0) = [] \<or> hd (fst (splitparams path0)) = CHR ''/''"
    "set (fst (splitparams path0)) \<subseteq> set path0" by blast+
  from pc show "path_text (path parsed)"
  proof
    assume "path parsed = path0"
    then show ?thesis by (simp only: pt0)
  next
    assume "path parsed = fst (splitparams path0)"
    then show ?thesis by (simp only: path_text_subset [OF pt0 fsp(2)])
  qed
  from pc show "path parsed = [] \<or> hd (path parsed) = CHR ''/''"
  proof
    assume "path parsed = path0"
    then show ?thesis by (simp only: hd0)
  next
    assume "path parsed = fst (splitparams path0)"
    then show ?thesis by (simp only: fsp(1))
  qed
qed


lemma path_text_append: "path_text (a @ b) \<longleftrightarrow> path_text a \<and> path_text b"
  unfolding path_text_def by auto

lemma path_text_marker: "path_text well_known_skills"
  by (simp add: path_text_def well_known_skills_def)

lemma prefix_hd: "prefix a b \<Longrightarrow> a \<noteq> [] \<Longrightarrow> hd a = hd b"
  by (auto simp: prefix_def)

lemma base_path_props:
  assumes pt: "path_text p" and hd: "p = [] \<or> hd p = CHR ''/''"
  defines "bp \<equiv> (case find_str (rstrip CHR ''/'' p) well_known_skills of
                    None \<Rightarrow> rstrip CHR ''/'' p @ well_known_skills
                  | Some i \<Rightarrow> take (i + length well_known_skills) (rstrip CHR ''/'' p))"
  shows "path_text bp" "bp \<noteq> []" "hd bp = CHR ''/''"
    "\<exists>q. bp = q @ well_known_skills \<and> find_str bp well_known_skills = Some (length q)"
proof -
  define p' where "p' = rstrip CHR ''/'' p"
  have pre: "prefix p' p" unfolding p'_def by (rule rstrip_prefix)
  then have sub: "set p' \<subseteq> set p" by (rule set_mono_prefix)
  have pt': "path_text p'" by (rule path_text_subset [OF pt sub])
  have hd': "p' = [] \<or> hd p' = CHR ''/''"
  proof (cases "p' = []")
    case True
    then show ?thesis ..
  next
    case False
    with pre have "p \<noteq> []" by auto
    with hd have "hd p = CHR ''/''" by simp
    with prefix_hd [OF pre False] show ?thesis by simp
  qed
  have hdm: "hd well_known_skills = CHR ''/''" "well_known_skills \<noteq> []"
    by (simp_all add: well_known_skills_def)
  have all: "path_text bp \<and> bp \<noteq> [] \<and> hd bp = CHR ''/''
      \<and> (\<exists>q. bp = q @ well_known_skills \<and> find_str bp well_known_skills = Some (length q))"
  proof (cases "find_str p' well_known_skills")
    case None
    then have bp: "bp = p' @ well_known_skills"
      by (simp add: bp_def p'_def)
    have 1: "path_text bp" unfolding bp by (simp add: path_text_append pt' path_text_marker)
    have 2: "bp \<noteq> []" unfolding bp using hdm(2) by simp
    have 3: "hd bp = CHR ''/''" unfolding bp using hd' hdm by (cases p') auto
    have 4: "find_str bp well_known_skills = Some (length p')"
      unfolding bp by (rule find_str_marker_end [OF None])
    from 1 2 3 4 bp show ?thesis
      by blast
  next
    case (Some i)
    then have bp: "bp = take (i + length well_known_skills) p'"
      by (simp add: bp_def p'_def)
    from find_str_occurs [OF Some] have occ: "i + length well_known_skills \<le> length p'"
      "take (i + length well_known_skills) p' = take i p' @ well_known_skills" by simp_all
    have bpq: "bp = take i p' @ well_known_skills" unfolding bp by (rule occ(2))
    have "set bp \<subseteq> set p'" unfolding bp by (rule set_take_subset)
    then have 1: "path_text bp" by (rule path_text_subset [OF pt'])
    have 2: "bp \<noteq> []" unfolding bpq using hdm(2) by simp
    have "prefix bp p'" unfolding bp by (rule take_is_prefix)
    from prefix_hd [OF this 2] have "hd bp = hd p'" .
    moreover from occ(1) hdm(2) have "p' \<noteq> []" by auto
    ultimately have 3: "hd bp = CHR ''/''" using hd' by simp
    have li: "length (take i p') = i" using occ(1) by simp
    have 4: "find_str bp well_known_skills = Some (length (take i p'))"
      unfolding bp li by (rule find_str_take [OF Some])
    from 1 2 3 4 bpq show ?thesis
      by blast
  qed
  from all show "path_text bp" "bp \<noteq> []" "hd bp = CHR ''/''"
    "\<exists>q. bp = q @ well_known_skills \<and> find_str bp well_known_skills = Some (length q)"
    by blast+
qed


lemma marker_split: "well_known_skills = ''/.well-known'' @ CHR ''/'' # ''skills''"
  by (simp add: well_known_skills_def)

lemma urlparse_rebuilt:
  assumes s: "s = ''http'' \<or> s = ''https''"
    and nt: "netloc_text nl" and ok: "netloc_ok e nl"
    and pt: "path_text bp" and hd: "hd bp = CHR ''/''" and ne: "bp \<noteq> []"
    and bq: "bp = q @ well_known_skills"
  shows "\<exists>parsed y. urlparse e (s @ ''://'' @ nl @ bp @ x) = Inr parsed
           \<and> scheme parsed = s \<and> netloc parsed = nl \<and> path parsed = bp @ y"
proof -
  define x' where "x' = remove_unsafe x"
  define y1 where "y1 = takeWhile (\<lambda>c. c \<noteq> CHR ''?'') (takeWhile (\<lambda>c. c \<noteq> CHR ''#'') x')"
  define r0 where "r0 = split_rest s nl (bp @ x')"
  have "remove_unsafe nl = nl"
    using nt by (intro remove_unsafe_id) (simp add: netloc_text_def)
  moreover have "remove_unsafe bp = bp"
    using pt by (intro remove_unsafe_id) (simp add: path_text_def)
  ultimately have ru: "remove_unsafe (nl @ bp @ x) = nl @ bp @ x'"
    by (simp add: remove_unsafe_append x'_def)
  from hd ne obtain bp' where bp: "bp = CHR ''/'' # bp'" by (cases bp) auto
  have nd: "\<forall>c\<in>set nl. \<not> is_delim c" using nt by (simp add: netloc_text_def)
  have d: "\<not> \<not> is_delim CHR ''/''" by (simp add: is_delim_def)
  have tw: "takeWhile (\<lambda>c. \<not> is_delim c) (nl @ bp @ x') = nl"
    unfolding bp append_Cons by (rule takeWhile_append_stop [OF nd d])
  have dw: "dropWhile (\<lambda>c. \<not> is_delim c) (nl @ bp @ x') = bp @ x'"
    unfolding bp append_Cons by (rule dropWhile_append_stop [OF nd d])
  have sp: "urlsplit e (s @ ''://'' @ nl @ bp @ x) = Inr r0"
    using urlsplit_http [OF s, of e "nl @ bp @ x"] ok
    by (simp only: ru tw dw r0_def if_True)
  have t1: "takeWhile (\<lambda>c. c \<noteq> CHR ''#'') (bp @ x') = bp @ takeWhile (\<lambda>c. c \<noteq> CHR ''#'') x'"
    using pt by (intro takeWhile_append2) (simp add: path_text_def)
  have t2: "takeWhile (\<lambda>c. c \<noteq> CHR ''?'') (bp @ z) = bp @ takeWhile (\<lambda>c. c \<noteq> CHR ''?'') z" for z
    using pt by (intro takeWhile_append2) (simp add: path_text_def)
  have r0: "scheme r0 = s" "netloc r0 = nl" "path r0 = bp @ y1"
    by (simp_all add: r0_def split_rest_path t1 t2 y1_def)
  have "scheme r0 \<in> set uses_params"
    using s uses_params_http by (auto simp: r0(1))
  from urlparse_after_urlsplit [OF sp this]
  have up: "urlparse e (s @ ''://'' @ nl @ bp @ x) =
     Inr (if CHR '';'' \<in> set (path r0)
          then r0\<lparr>path := fst (splitparams (path r0)), params := snd (splitparams (path r0))\<rparr>
          else r0)" .
  have "bp @ y1 = (q @ ''/.well-known'') @ CHR ''/'' # ''skills'' @ y1"
    by (simp add: bq marker_split)
  moreover have "\<exists>y'. fst (splitparams ((q @ ''/.well-known'') @ CHR ''/'' # ''skills'' @ y1))
       = (q @ ''/.well-known'') @ CHR ''/'' # ''skills'' @ y'"
    by (rule splitparams_keep) simp_all
  ultimately obtain y' where y': "fst (splitparams (bp @ y1)) = bp @ y'"
    by (auto simp: bq marker_split)
  show ?thesis
  proof (cases "CHR '';'' \<in> set (path r0)")
    case True
    with up have "urlparse e (s @ ''://'' @ nl @ bp @ x) =
        Inr (r0\<lparr>path := fst (splitparams (path r0)), params := snd (splitparams (path r0))\<rparr>)"
      by (simp only: if_True)
    moreover have "path (r0\<lparr>path := fst (splitparams (path r0)), params := snd (splitparams (path r0))\<rparr>)
        = bp @ y'" by (simp add: r0(3) y')
    moreover have "scheme (r0\<lparr>path := fst (splitparams (path r0)), params := snd (splitparams (path r0))\<rparr>) = s"
      "netloc (r0\<lparr>path := fst (splitparams (path r0)), params := snd (splitparams (path r0))\<rparr>) = nl"
      by (simp_all add: r0)
    ultimately show ?thesis by blast
  next
    case False
    with up have "urlparse e (s @ ''://'' @ nl @ bp @ x) = Inr r0"
      by (simp only: if_False)
    with r0 show ?thesis by blast
  qed
qed


lemma get_well_known_base_eq:
  "urlparse e url = Inr parsed \<Longrightarrow>
   get_well_known_base e url =
     Inr (scheme parsed @ ''://'' @ netloc parsed @
          (case find_str (rstrip CHR ''/'' (path parsed)) well_known_skills of
             None \<Rightarrow> rstrip CHR ''/'' (path parsed) @ well_known_skills
           | Some i \<Rightarrow> take (i + length well_known_skills) (rstrip CHR ''/'' (path parsed))))"
  by (simp add: get_well_known_base_def Let_def split: option.splits)

lemma get_well_known_base_Inr:
  "get_well_known_base e url = Inr base \<Longrightarrow> \<exists>parsed. urlparse e url = Inr parsed"
  by (auto simp: get_well_known_base_def split: sum.splits)

lemma get_well_known_base_extension:
  assumes h: "is_http url" and b: "get_well_known_base e url = Inr base"
  shows "get_well_known_base e (base @ x) = Inr base"
proof -
  from is_http_cases [OF h] obtain s r where s: "s = ''http'' \<or> s = ''https''"
    and url: "url = s @ ''://'' @ r" by blast
  from get_well_known_base_Inr [OF b] obtain parsed where p: "urlparse e url = Inr parsed" ..
  define bp where "bp = (case find_str (rstrip CHR ''/'' (path parsed)) well_known_skills of
             None \<Rightarrow> rstrip CHR ''/'' (path parsed) @ well_known_skills
           | Some i \<Rightarrow> take (i + length well_known_skills) (rstrip CHR ''/'' (path parsed)))"
  note parts = urlparse_http_parts [OF s p [unfolded url]]
  from get_well_known_base_eq [OF p] b
  have base: "base = s @ ''://'' @ netloc parsed @ bp"
    by (simp add: bp_def parts(1))
  note bpp = base_path_props [OF parts(4,5), folded bp_def]
  from bpp(4) obtain q where q: "bp = q @ well_known_skills"
    "find_str bp well_known_skills = Some (length q)" by blast
  from urlparse_rebuilt [OF s parts(2,3) bpp(1,3,2) q(1), of x]
  obtain parsed2 y where p2: "urlparse e (s @ ''://'' @ netloc parsed @ bp @ x) = Inr parsed2"
    and f2: "scheme parsed2 = s" "netloc parsed2 = netloc parsed" "path parsed2 = bp @ y"
    by blast
  have "last bp = CHR ''s''" unfolding q(1) by (simp add: well_known_skills_def)
  then have "last bp \<noteq> CHR ''/''" by simp
  from rstrip_append [OF bpp(2) this, of y] obtain y' where
    y': "rstrip CHR ''/'' (bp @ y) = bp @ y'" ..
  have fnd: "find_str (bp @ y') well_known_skills = Some (length q)"
    by (rule find_str_append [OF q(2)])
  have tk: "take (length q + length well_known_skills) (bp @ y') = bp"
    by (simp add: q(1))
  have "get_well_known_base e (s @ ''://'' @ netloc parsed @ bp @ x) =
      Inr (s @ ''://'' @ netloc parsed @ bp)"
    unfolding get_well_known_base_eq [OF p2] f2 y' fnd by (simp only: option.case tk)
  then show ?thesis by (simp add: base)
qed

text \<open>
  Claim C6, as amended. Let \<open>urlparse\<close> accept the URL, with scheme \<open>s\<close>, network location
  \<open>n\<close> and path \<open>p\<close>, and let \<open>p'\<close> be \<open>p\<close> without its trailing slashes. When \<open>p'\<close> does not
  contain \<open>/.well-known/skills\<close>, the base is \<open>s://n\<close> followed by \<open>p'\<close> and
  \<open>/.well-known/skills\<close>; when it does, the base is \<open>s://n\<close> followed by \<open>p'\<close> up to and
  including the first \<open>/.well-known/skills\<close>. For a URL that starts with \<open>http://\<close> or
  \<open>https://\<close> the computation is idempotent: applied to its own output, or to its output
  followed by any further text, it returns that output again. \<open>https://example.com/docs\<close>
  maps to \<open>https://example.com/docs/.well-known/skills\<close>.
\<close>

theorem get_well_known_base_spec:
  "(\<forall>parsed. urlparse e url = Inr parsed \<longrightarrow>
       (\<not> contains (rstrip CHR ''/'' (path parsed)) ''/.well-known/skills'' \<longrightarrow>
          get_well_known_base e url =
            Inr (scheme parsed @ ''://'' @ netloc parsed @ rstrip CHR ''/'' (path parsed)
                 @ ''/.well-known/skills''))
     \<and> (\<forall>a b. rstrip CHR ''/'' (path parsed) = a @ ''/.well-known/skills'' @ b
               \<and> find_str (rstrip CHR ''/'' (path parsed)) ''/.well-known/skills'' = Some (length a) \<longrightarrow>
          get_well_known_base e url =
            Inr (scheme parsed @ ''://'' @ netloc parsed @ a @ ''/.well-known/skills'')))
   \<and> (is_http url \<longrightarrow>
        (\<forall>base. get_well_known_base e url = Inr base \<longrightarrow>
           get_well_known_base e base = Inr base
           \<and> (\<forall>rest. get_well_known_base e (base @ rest) = Inr base)))
   \<and> get_well_known_base e ''https://example.com/docs''
        = Inr ''https://example.com/docs/.well-known/skills''"
proof (intro conjI allI impI)
  fix parsed
  assume p: "urlparse e url = Inr parsed"
    and n: "\<not> contains (rstrip CHR ''/'' (path parsed)) ''/.well-known/skills''"
  from n have "find_str (rstrip CHR ''/'' (path parsed)) well_known_skills = None"
    by (simp add: contains_iff_find well_known_skills_def)
  with get_well_known_base_eq [OF p]
  show "get_well_known_base e url =
      Inr (scheme parsed @ ''://'' @ netloc parsed @ rstrip CHR ''/'' (path parsed)
           @ ''/.well-known/skills'')"
    by (simp add: well_known_skills_def)
next
  fix parsed a b
  assume p: "urlparse e url = Inr parsed"
    and ab: "rstrip CHR ''/'' (path parsed) = a @ ''/.well-known/skills'' @ b
           \<and> find_str (rstrip CHR ''/'' (path parsed)) ''/.well-known/skills'' = Some (length a)"
  then have f: "find_str (rstrip CHR ''/'' (path parsed)) well_known_skills = Some (length a)"
    and r: "rstrip CHR ''/'' (path parsed) = a @ well_known_skills @ b"
    unfolding well_known_skills_def by blast+
  have tk: "take (length a + length well_known_skills) (a @ well_known_skills @ b) = a @ well_known_skills"
    by simp
  have "get_well_known_base e url =
      Inr (scheme parsed @ ''://'' @ netloc parsed @ a @ well_known_skills)"
    unfolding get_well_known_base_eq [OF p] f by (simp only: option.case r tk)
  then show "get_well_known_base e url =
      Inr (scheme parsed @ ''://'' @ netloc parsed @ a @ ''/.well-known/skills'')"
    unfolding well_known_skills_def .
next
  fix base
  assume "is_http url" "get_well_known_base e url = Inr base"
  from get_well_known_base_extension [OF this, of "[]"]
  show "get_well_known_base e base = Inr base" by simp
next
  fix base rest
  assume "is_http url" "get_well_known_base e url = Inr base"
  then show "get_well_known_base e (base @ rest) = Inr base"
    by (rule get_well_known_base_extension)
next
  have h: "is_http ''https://example.com/docs''"
    by (simp add: is_http_def startswith_def)
  have "urlsplit e (''https'' @ ''://'' @ ''example.com/docs'') =
      Inr (split_rest ''https'' ''example.com'' ''/docs'')"
    by (subst urlsplit_http)
      (simp_all add: remove_unsafe_def is_delim_def netloc_ok_def)
  then have "urlparse e ''https://example.com/docs'' =
      Inr \<lparr>scheme = ''https'', netloc = ''example.com'', path = ''/docs'', params = [],
           query = [], fragment = []\<rparr>"
    by (simp add: urlparse_def split_rest_def split_once_def)
  from get_well_known_base_eq [OF this]
  show "get_well_known_base e ''https://example.com/docs''
        = Inr ''https://example.com/docs/.well-known/skills''"
    by (simp add: rstrip_def well_known_skills_def)
qed

theorem get_well_known_base_spec_witness:
  "get_well_known_base no_network ''https://example.com/.well-known/skills/my-skill''
     = Inr ''https://example.com/.well-known/skills''
   \<and> get_well_known_base no_network ''https://example.com/.well-known/skills''
     = Inr ''https://example.com/.well-known/skills''
   \<and> get_well_known_base no_network ''https://example.com/docs/''
     = Inr ''https://example.com/docs/.well-known/skills''
   \<and> get_well_known_base no_network ''https://example.com/docs/.well-known/skills/a/b?c''
     = Inr ''https://example.com/docs/.well-known/skills''"
proof -
  let ?u = "''https://example.com/docs/''"
  let ?b = "''https://example.com/docs/.well-known/skills''"
  let ?v = "''https://example.com/.well-known/skills/my-skill''"
  let ?c = "''https://example.com/.well-known/skills''"
  have hu: "is_http ?u" and hv: "is_http ?v" by code_simp+
  have bu: "get_well_known_base no_network ?u = Inr ?b" by code_simp
  have pv: "urlparse no_network ?v =
      Inr \<lparr>scheme = ''https'', netloc = ''example.com'', path = ''/.well-known/skills/my-skill'',
           params = [], query = [], fragment = []\<rparr>" by code_simp
  have rv: "rstrip CHR ''/'' ''/.well-known/skills/my-skill'' = [] @ ''/.well-known/skills'' @ ''/my-skill''"
    by code_simp
  have fv: "find_str (rstrip CHR ''/'' ''/.well-known/skills/my-skill'') ''/.well-known/skills''
      = Some (length ([] :: string))" by code_simp
  note t = get_well_known_base_spec [of no_network ?v]
  from t [THEN conjunct1, rule_format, OF pv, THEN conjunct2, rule_format, of "[]" "''/my-skill''"]
    rv fv
  have bv: "get_well_known_base no_network ?v = Inr ?c" by simp
  from t [THEN conjunct2, THEN conjunct1, rule_format, OF hv bv]
  have bc: "get_well_known_base no_network ?c = Inr ?c" by blast
  from get_well_known_base_spec [of no_network ?u, THEN conjunct2, THEN conjunct1, rule_format,
      OF hu bu]
  have "get_well_known_base no_network (?b @ ''/a/b?c'') = Inr ?b" by blast
  then have ext: "get_well_known_base no_network ''https://example.com/docs/.well-known/skills/a/b?c''
     = Inr ?b" by simp
  from bv bc bu ext show ?thesis by (intro conjI)
qed

text \<open>
  Claim C6 as stated fails in two places. At \<open>https://example.com/docs/\<close> the base is not
  built from the path \<open>/docs/\<close> as it stands: the trailing slash is dropped. At
  \<open>example.com/docs\<close>, which has no scheme, the computation is not idempotent: its output
  \<open>://example.com/docs/.well-known/skills\<close> maps to
  \<open>://://example.com/docs/.well-known/skills\<close>.
\<close>

theorem get_well_known_base_counterexample:
  "urlparse no_network ''https://example.com/docs/''
     = Inr \<lparr>scheme = ''https'', netloc = ''example.com'', path = ''/docs/'', params = [],
            query = [], fragment = []\<rparr>
   \<and> get_well_known_base no_network ''https://example.com/docs/''
     = Inr ''https://example.com/docs/.well-known/skills''
   \<and> ''https://example.com/docs/.well-known/skills''
     \<noteq> ''https'' @ ''://'' @ ''example.com'' @ ''/docs/'' @ ''/.well-known/skills''
   \<and> get_well_known_base no_network ''example.com/docs''
     = Inr ''://example.com/docs/.well-known/skills''
   \<and> get_well_known_base no_network ''://example.com/docs/.well-known/skills''
     = Inr ''://://example.com/docs/.well-known/skills''"
  by code_simp


end
